theory Spec2Isabelle
  imports Main
begin

section \<open>Data model\<close>

text \<open>
  Go strings are byte sequences; \<open>string\<close> (a list of 8-bit characters) is used for
  them, and \<open>length\<close> is Go's \<open>len\<close>. A point in time (\<open>time.Time\<close>) is an integer
  timestamp.
\<close>

type_synonym time = int

text \<open>
  The \<open>Article\<close> struct, with the fields the sources under study read and write.
  \<open>Versions\<close> is a slice of \<open>*Text\<close>; a text is never inspected by this code, so
  its type is left as a parameter.
\<close>

record 't Article =
  Id :: int
  PublishedOn :: time
  Title :: string
  IsPrivate :: bool
  IsDeleted :: bool
  Tags :: "string list"
  Versions :: "'t list"

section \<open>main.go: findUniqueArticleId\<close>

text \<open>
  Go's \<open>int\<close> is a 64-bit two's complement integer on the platforms the server is built
  for; \<open>prevId + 1\<close> wraps around at the upper end.
\<close>

definition wrap64 :: "int \<Rightarrow> int" where
  "wrap64 x = (x + 2 ^ 63) mod 2 ^ 64 - 2 ^ 63"

definition in_int64 :: "int \<Rightarrow> bool" where
  "in_int64 x \<longleftrightarrow> - (2 ^ 63) \<le> x \<and> x < 2 ^ 63"

text \<open>
  The loop \<open>for i := 1; i < len(ids); i++\<close> over the sorted ids: \<open>scanIds prevId rest\<close>
  is the loop entered with \<open>prevId\<close> and the elements \<open>ids[i..]\<close> still to visit.
\<close>

fun scanIds :: "int \<Rightarrow> int list \<Rightarrow> int" where
  "scanIds prevId [] = wrap64 (prevId + 1)"
| "scanIds prevId (x # rest) =
     (if x \<noteq> wrap64 (prevId + 1) then wrap64 (prevId + 1) else scanIds x rest)"

definition findUniqueArticleId :: "'t Article list \<Rightarrow> int" where
  "findUniqueArticleId articles =
     (let ids = map Id articles in
      if length ids = 0 then 1
      else (case sort ids of
              [] \<Rightarrow> 1
            | first # rest \<Rightarrow> scanIds first rest))"

text \<open>An article that carries a given id, for concrete inputs.\<close>

definition articleWithId :: "int \<Rightarrow> unit Article" where
  "articleWithId i =
     \<lparr>Id = i, PublishedOn = 0, Title = [], IsPrivate = False, IsDeleted = False,
      Tags = [], Versions = []\<rparr>"

section \<open>main.go: the backup gate and the startup sequence\<close>

text \<open>
  The global \<open>config\<close>: every field the JSON file may supply is a \<open>*string\<close>, \<open>nil\<close>
  (\<open>None\<close>) until \<open>json.Unmarshal\<close> finds the key. (\<open>TwitterOAuthCredentials\<close> points
  to a struct that always exists and plays no part here.)
\<close>

record config =
  CookieAuthKeyHexStr :: "string option"
  CookieEncrKeyHexStr :: "string option"
  AnalyticsCode :: "string option"
  AwsAccess :: "string option"
  AwsSecret :: "string option"
  S3BackupBucket :: "string option"
  S3BackupDir :: "string option"

definition config0 :: config where
  "config0 =
     \<lparr>CookieAuthKeyHexStr = None, CookieEncrKeyHexStr = None, AnalyticsCode = None,
      AwsAccess = None, AwsSecret = None, S3BackupBucket = None, S3BackupDir = None\<rparr>"

definition StringEmpty :: "string option \<Rightarrow> bool" where
  "StringEmpty s = (case s of None \<Rightarrow> True | Some v \<Rightarrow> 0 = length v)"

text \<open>
  \<open>S3BackupEnabled\<close> reads the globals \<open>inProduction\<close> and \<open>config\<close>; it returns its
  result together with the lines it hands to \<open>logger.Notice\<close>.
\<close>

definition S3BackupEnabled :: "bool \<Rightarrow> config \<Rightarrow> bool \<times> string list" where
  "S3BackupEnabled inProduction cfg =
     (if \<not> inProduction then
        (False, [''s3 backups disabled because not in production''])
      else if StringEmpty (AwsAccess cfg) then
        (False, [''s3 backups disabled because AwsAccess not defined in config.json''])
      else if StringEmpty (AwsSecret cfg) then
        (False, [''s3 backups disabled because AwsSecret not defined in config.json''])
      else if StringEmpty (S3BackupBucket cfg) then
        (False, [''s3 backups disabled because S3BackupBucket not defined in config.json''])
      else if StringEmpty (S3BackupDir cfg) then
        (False, [''s3 backups disabled because S3BackupDir not defined in config.json''])
      else (True, []))"

text \<open>A Go call either returns or panics.\<close>

datatype 'a go = Return 'a | Panic string

text \<open>Dereferencing a \<open>*string\<close>: a nil pointer panics.\<close>

definition deref :: "string option \<Rightarrow> string go" where
  "deref p = (case p of None \<Rightarrow> Panic ''invalid memory address or nil pointer dereference''
              | Some v \<Rightarrow> Return v)"

text \<open>
  The command line flags, and what the collaborators of \<open>main\<close> that are outside these
  sources do in a given run: the outcome of reading and decoding the configuration file
  (an error, or the \<open>config\<close> that \<open>json.Unmarshal\<close> leaves), and whether the cookie
  check, the two stores and the data directory are in order. For \<open>genNewArticle\<close>:
  whether the file of the new article cannot be made (every candidate path is taken, or
  its directory cannot be created), and the Unicode case tables behind
  \<open>strings.ToLower\<close>.
\<close>

record flags =
  configPath :: string
  httpAddr :: string
  inProduction :: bool
  newArticleTitle :: string

record collaborators =
  fileDecode :: "string + config"
  Encode_err :: bool
  NewStore_err :: bool
  dataDir_exists :: bool
  NewStoreCrashes_err :: bool
  newFile_blocked :: bool
  caseTables :: "nat list \<Rightarrow> nat list"

text \<open>\<open>hex.DecodeString\<close> fails on an odd length and on a byte that is no hex digit.\<close>

definition hexDecodeOk :: "string \<Rightarrow> bool" where
  "hexDecodeOk s \<longleftrightarrow> even (length s) \<and> list_all (\<lambda>c. c \<in> set ''0123456789abcdefABCDEF'') s"

text \<open>
  \<open>readConfig\<close>: the error it returns (\<open>None\<close> for \<open>nil\<close>) and the \<open>config\<close> it leaves.
\<close>

definition readConfig :: "collaborators \<Rightarrow> (string option \<times> config) go" where
  "readConfig env =
     (case fileDecode env of
        Inl err \<Rightarrow> Return (Some err, config0)
      | Inr cfg \<Rightarrow>
          (case deref (CookieAuthKeyHexStr cfg) of
             Panic m \<Rightarrow> Panic m
           | Return authHex \<Rightarrow>
               if \<not> hexDecodeOk authHex then Return (Some ''encoding/hex: invalid string'', cfg)
               else
                 (case deref (CookieEncrKeyHexStr cfg) of
                    Panic m \<Rightarrow> Panic m
                  | Return encrHex \<Rightarrow>
                      if \<not> hexDecodeOk encrHex
                      then Return (Some ''encoding/hex: invalid string'', cfg)
                      else if Encode_err env
                      then Return (Some ''securecookie: encoding failed'', cfg)
                      else Return (None, cfg))))"

text \<open>
  How a run of \<open>main\<close> ends, the lines passed to \<open>logger.Notice\<close> on the way, and the
  number of \<open>BackupLoop\<close> goroutines started. \<open>Serving\<close> is reaching
  \<open>http.ListenAndServe\<close>.
\<close>

datatype outcome = Exited | Fatal string | Panicked string | Serving

record run =
  outcome :: outcome
  notices :: "string list"
  backupLoops :: nat

record BackupConfig =
  bcAwsAccess :: string
  bcAwsSecret :: string
  bcBucket :: string
  bcS3Dir :: string

text \<open>
  The composite literal \<open>&BackupConfig{...}\<close> of \<open>main\<close>: the four fields are
  dereferenced in order.
\<close>

definition andThen :: "'a go \<Rightarrow> ('a \<Rightarrow> 'b go) \<Rightarrow> 'b go" where
  "andThen x f = (case x of Panic m \<Rightarrow> Panic m | Return v \<Rightarrow> f v)"

definition makeBackupConfig :: "config \<Rightarrow> BackupConfig go" where
  "makeBackupConfig cfg =
     andThen (deref (AwsAccess cfg)) (\<lambda>a.
     andThen (deref (AwsSecret cfg)) (\<lambda>s.
     andThen (deref (S3BackupBucket cfg)) (\<lambda>b.
     andThen (deref (S3BackupDir cfg)) (\<lambda>d.
       Return \<lparr>bcAwsAccess = a, bcAwsSecret = s, bcBucket = b, bcS3Dir = d\<rparr>))))"

section \<open>main.go: sanitizeForFile\<close>

text \<open>
  Bytes and code points are natural numbers here; a Go string enters as a \<open>string\<close> and
  is read byte by byte with \<open>of_char\<close>.

  \<open>decodeRune\<close> is \<open>utf8.DecodeRuneInString\<close>: the code point at the head of the bytes
  and its width; an invalid or truncated sequence is \<open>RuneError\<close> (U+FFFD) of width 1.
  \<open>rangeRunes\<close> is the sequence of values of \<open>c\<close> in \<open>for _, c := range s\<close>.
\<close>

definition RuneError :: nat where
  "RuneError = 0xFFFD"

definition cont :: "nat \<Rightarrow> bool" where
  "cont b \<longleftrightarrow> 0x80 \<le> b \<and> b \<le> 0xBF"

fun decodeRune :: "nat list \<Rightarrow> nat \<times> nat" where
  "decodeRune [] = (RuneError, 0)"
| "decodeRune (b0 # bs) =
     (if b0 < 0x80 then (b0, 1)
      else if b0 < 0xC2 \<or> 0xF4 < b0 then (RuneError, 1)
      else
        (case bs of
           [] \<Rightarrow> (RuneError, 1)
         | b1 # bs1 \<Rightarrow>
             let lo = (if b0 = 0xE0 then 0xA0 else if b0 = 0xF0 then 0x90 else 0x80);
                 hi = (if b0 = 0xED then 0x9F else if b0 = 0xF4 then 0x8F else 0xBF)
             in
             if b1 < lo \<or> hi < b1 then (RuneError, 1)
             else if b0 < 0xE0 then ((b0 mod 0x20) * 0x40 + b1 mod 0x40, 2)
             else
               (case bs1 of
                  [] \<Rightarrow> (RuneError, 1)
                | b2 # bs2 \<Rightarrow>
                    if \<not> cont b2 then (RuneError, 1)
                    else if b0 < 0xF0
                    then ((b0 mod 0x10) * 0x1000 + (b1 mod 0x40) * 0x40 + b2 mod 0x40, 3)
                    else
                      (case bs2 of
                         [] \<Rightarrow> (RuneError, 1)
                       | b3 # _ \<Rightarrow>
                           if \<not> cont b3 then (RuneError, 1)
                           else ((b0 mod 0x08) * 0x40000 + (b1 mod 0x40) * 0x1000
                                 + (b2 mod 0x40) * 0x40 + b3 mod 0x40, 4)))))"

fun rangeRunes :: "nat list \<Rightarrow> nat list" where
  "rangeRunes [] = []"
| "rangeRunes (b # bs) =
     (case decodeRune (b # bs) of (r, w) \<Rightarrow> r # rangeRunes (drop (w - 1) bs))"

text \<open>
  The string \<open>toRemove\<close> holds the fifteen ASCII characters
  \<^verbatim>\<open>/ \ # ( ) [ ] { } , ? + . ' "\<close>, given by their codes. On a string of ASCII
  characters \<open>strings.ContainsRune\<close> is membership.
\<close>

definition toRemove :: "nat list" where
  "toRemove = [47, 92, 35, 40, 41, 91, 93, 123, 125, 44, 63, 43, 46, 39, 34]"

definition ContainsRune :: "nat list \<Rightarrow> nat \<Rightarrow> bool" where
  "ContainsRune s r \<longleftrightarrow> r \<in> set s"

text \<open>
  \<open>utf8.EncodeRune(buf, r)\<close> for a buffer of \<open>n\<close> bytes: the bytes it writes (their
  number is its result), or the panic of writing past the end of the buffer. A code point
  above U+FFFF takes four bytes.
\<close>

definition EncodeRune :: "nat \<Rightarrow> nat \<Rightarrow> nat list go" where
  "EncodeRune n r =
     (if r \<le> 0x7F then
        (if n < 1 then Panic ''index out of range'' else Return [r])
      else if r \<le> 0x7FF then
        (if n < 2 then Panic ''index out of range''
         else Return [0xC0 + r div 0x40, 0x80 + r mod 0x40])
      else if 0x10FFFF < r \<or> (0xD800 \<le> r \<and> r \<le> 0xDFFF) then
        (if n < 3 then Panic ''index out of range'' else Return [0xEF, 0xBF, 0xBD])
      else if r \<le> 0xFFFF then
        (if n < 3 then Panic ''index out of range''
         else Return [0xE0 + r div 0x1000, 0x80 + (r div 0x40) mod 0x40, 0x80 + r mod 0x40])
      else
        (if n < 4 then Panic ''index out of range''
         else Return [0xF0 + r div 0x40000, 0x80 + (r div 0x1000) mod 0x40,
                      0x80 + (r div 0x40) mod 0x40, 0x80 + r mod 0x40]))"

text \<open>
  The loop of \<open>sanitizeForFile\<close> over the code points still to come, with the
  variables \<open>prev\<close> and \<open>res\<close>. The buffer \<open>buf\<close> has three bytes.
\<close>

fun sanitizeLoop :: "nat list \<Rightarrow> nat \<Rightarrow> nat list \<Rightarrow> nat list go" where
  "sanitizeLoop [] prev res = Return res"
| "sanitizeLoop (c # cs) prev res =
     (if ContainsRune toRemove c then sanitizeLoop cs prev res
      else
        let c1 = (if c = 32 \<or> c = 95 then 45 else c) in
        if c1 = prev then sanitizeLoop cs prev res
        else
          (case EncodeRune 3 c1 of
             Panic m \<Rightarrow> Panic m
           | Return buf \<Rightarrow> sanitizeLoop cs c1 (res @ buf)))"

text \<open>
  \<open>strings.Trim\<close> with a cutset of ASCII characters removes the leading and trailing
  bytes that are in the cutset. \<open>strings.ToLower\<close> maps \<open>A\<close> to \<open>Z\<close> to lower case
  when every byte is ASCII; otherwise it goes through the Unicode case tables, which are
  a parameter here.
\<close>

definition Trim :: "nat list \<Rightarrow> nat list \<Rightarrow> nat list" where
  "Trim s cutset =
     rev (dropWhile (\<lambda>b. b \<in> set cutset) (rev (dropWhile (\<lambda>b. b \<in> set cutset) s)))"

definition asciiLower :: "nat \<Rightarrow> nat" where
  "asciiLower b = (if 65 \<le> b \<and> b \<le> 90 then b + 32 else b)"

definition ToLower :: "(nat list \<Rightarrow> nat list) \<Rightarrow> nat list \<Rightarrow> nat list" where
  "ToLower unicodeLower s =
     (if list_all (\<lambda>b. b < 0x80) s then map asciiLower s else unicodeLower s)"

definition sanitizeForFile :: "(nat list \<Rightarrow> nat list) \<Rightarrow> string \<Rightarrow> string go" where
  "sanitizeForFile unicodeLower s =
     (case sanitizeLoop (rangeRunes (map of_char s)) 0 [] of
        Panic m \<Rightarrow> Panic m
      | Return res \<Rightarrow>
          let res1 = (if 32 < length res then take 32 res else res);
              s1 = Trim res1 [95, 45, 32];
              s2 = ToLower unicodeLower s1
          in Return (map char_of s2))"

text \<open>The bytes that may occur in a file name made from an ASCII title, before lower-casing.\<close>

definition slugByte :: "nat \<Rightarrow> bool" where
  "slugByte b \<longleftrightarrow> b < 128 \<and> b \<notin> set toRemove \<and> b \<noteq> 32 \<and> b \<noteq> 95"

section \<open>main.go: genNewArticle and main\<close>

text \<open>
  \<open>genNewArticle\<close>, as far as the way it ends goes: \<open>log.Fatalf\<close> when the store
  cannot be opened, the panic of \<open>sanitizeForFile\<close>, the panic of \<open>u.PanicIf\<close> or
  \<open>u.CreateDirForFileMust\<close> when the file cannot be made; otherwise it returns and
  \<open>main\<close> returns after it.
\<close>

definition genNewArticle :: "collaborators \<Rightarrow> string \<Rightarrow> outcome" where
  "genNewArticle env title =
     (if NewStore_err env then Fatal ''NewStore() failed''
      else
        (case sanitizeForFile (caseTables env) title of
           Panic m \<Rightarrow> Panicked m
         | Return name \<Rightarrow>
             if newFile_blocked env then Panicked ''the file cannot be made'' else Exited))"

definition main :: "flags \<Rightarrow> collaborators \<Rightarrow> run" where
  "main fl env =
     (if newArticleTitle fl \<noteq> []
      then \<lparr>outcome = genNewArticle env (newArticleTitle fl), notices = [], backupLoops = 0\<rparr>
      else
        case readConfig env of
          Panic m \<Rightarrow> \<lparr>outcome = Panicked m, notices = [], backupLoops = 0\<rparr>
        | Return (Some err, _) \<Rightarrow>
            \<lparr>outcome = Fatal ''Failed reading config file'', notices = [], backupLoops = 0\<rparr>
        | Return (None, cfg0) \<Rightarrow>
            let cfg = (if \<not> inProduction fl then cfg0\<lparr>AnalyticsCode := Some []\<rparr> else cfg0) in
            if NewStore_err env
            then \<lparr>outcome = Fatal ''NewStore() failed'', notices = [], backupLoops = 0\<rparr>
            else if \<not> dataDir_exists env
            then \<lparr>outcome = Fatal ''data directory does not exist'', notices = [],
                   backupLoops = 0\<rparr>
            else if NewStoreCrashes_err env
            then \<lparr>outcome = Fatal ''NewStoreCrashes() failed'', notices = [], backupLoops = 0\<rparr>
            else
              (case makeBackupConfig cfg of
                 Panic m \<Rightarrow> \<lparr>outcome = Panicked m, notices = [], backupLoops = 0\<rparr>
               | Return backupConfig \<Rightarrow>
                   let (enabled, logged) = S3BackupEnabled (inProduction fl) cfg in
                   \<lparr>outcome = Serving,
                    notices = logged @ [''Started runing on '' @ httpAddr fl],
                    backupLoops = (if enabled then 1 else 0)\<rparr>))"

text \<open>
  Concrete inputs: a run in which every collaborator is in order, and a configuration
  with every field present (the two cookie keys are 32 bytes each).
\<close>

definition collaboratorsOk :: "config \<Rightarrow> collaborators" where
  "collaboratorsOk cfg =
     \<lparr>fileDecode = Inr cfg, Encode_err = False, NewStore_err = False, dataDir_exists = True,
      NewStoreCrashes_err = False, newFile_blocked = False, caseTables = (\<lambda>s. s)\<rparr>"

definition serverFlags :: "bool \<Rightarrow> flags" where
  "serverFlags production =
     \<lparr>configPath = ''config.json'', httpAddr = '':5020'', inProduction = production,
      newArticleTitle = []\<rparr>"

definition fullConfig :: config where
  "fullConfig =
     \<lparr>CookieAuthKeyHexStr =
        Some ''000102030405060708090a0b0c0d0e0f101112131415161718191a1b1c1d1e1f'',
      CookieEncrKeyHexStr =
        Some ''f0e1d2c3b4a5968778695a4b3c2d1e0f00112233445566778899aabbccddeeff'',
      AnalyticsCode = Some ''UA-1'', AwsAccess = Some ''key'', AwsSecret = Some ''secret'',
      S3BackupBucket = Some ''bucket'', S3BackupDir = Some ''dir''\<rparr>"

section \<open>Library functions used by the edit handler\<close>

text \<open>
  \<open>strings.TrimSpace\<close> removes the leading and the trailing code points that
  \<open>unicode.IsSpace\<close> accepts. From the left the string is decoded forwards; from the
  right it is decoded backwards with \<open>utf8.DecodeLastRuneInString\<close>, which looks back
  over at most four bytes for the start of the last code point.
\<close>

definition IsSpace :: "nat \<Rightarrow> bool" where
  "IsSpace r \<longleftrightarrow>
     r \<in> set [0x09, 0x0A, 0x0B, 0x0C, 0x0D, 0x20, 0x85, 0xA0, 0x1680, 0x2028, 0x2029, 0x202F,
              0x205F, 0x3000]
     \<or> (0x2000 \<le> r \<and> r \<le> 0x200A)"

fun TrimLeftSpace :: "string \<Rightarrow> string" where
  "TrimLeftSpace [] = []"
| "TrimLeftSpace (c # cs) =
     (case decodeRune (map of_char (c # cs)) of
        (r, w) \<Rightarrow> if IsSpace r then TrimLeftSpace (drop (w - 1) cs) else c # cs)"

definition RuneStart :: "nat \<Rightarrow> bool" where
  "RuneStart b \<longleftrightarrow> \<not> cont b"

definition DecodeLastRune :: "nat list \<Rightarrow> nat \<times> nat" where
  "DecodeLastRune s =
     (let n = length s in
      if n = 0 then (RuneError, 0)
      else if s ! (n - 1) < 0x80 then (s ! (n - 1), 1)
      else
        let lim = n - 4;
            start = (case filter (\<lambda>j. RuneStart (s ! j)) (rev [lim ..< n - 1]) of
                       j # _ \<Rightarrow> j
                     | [] \<Rightarrow> lim - 1)
        in case decodeRune (drop start s) of
             (r, wid) \<Rightarrow> if start + wid \<noteq> n then (RuneError, 1) else (r, wid))"

lemma decodeRune_width: "s \<noteq> [] \<Longrightarrow> 1 \<le> snd (decodeRune s)"
  by (cases s) (auto simp: Let_def split: list.splits)

lemma DecodeLastRune_width: "s \<noteq> [] \<Longrightarrow> 1 \<le> snd (DecodeLastRune s)"
proof -
  assume ne: "s \<noteq> []"
  have "1 \<le> snd (case decodeRune t of (r, wid) \<Rightarrow>
               if st + wid \<noteq> length s then (RuneError, 1) else (r, wid))"
    if "st < length s" "t = drop st s" for st t
  proof -
    have "t \<noteq> []" using that by simp
    from decodeRune_width [OF this] show ?thesis
      by (auto split: prod.splits)
  qed
  moreover have "(case filter (\<lambda>j. RuneStart (s ! j)) (rev [length s - 4 ..< length s - 1]) of
                       j # _ \<Rightarrow> j
                     | [] \<Rightarrow> length s - 4 - 1) < length s"
  proof (cases "filter (\<lambda>j. RuneStart (s ! j)) (rev [length s - 4 ..< length s - 1])")
    case Nil
    then show ?thesis using ne by (simp add: Suc_le_eq)
  next
    case (Cons j js)
    then have "j \<in> set (filter (\<lambda>j. RuneStart (s ! j)) (rev [length s - 4 ..< length s - 1]))"
      by simp
    then have "j < length s - 1" by auto
    then show ?thesis using Cons by simp
  qed
  ultimately show ?thesis
    using ne by (simp add: DecodeLastRune_def Let_def)
qed

lemma DecodeLastRune_space_width:
  assumes "(r, wid) = DecodeLastRune (take i s)" and "IsSpace r" and "i \<noteq> 0"
  shows "i - wid < i"
proof (cases "take i s = []")
  case True
  with assms(1) have "(r, wid) = DecodeLastRune []" by simp
  then have "r = RuneError" by (simp add: DecodeLastRune_def)
  then show ?thesis using assms(2) by (simp add: IsSpace_def RuneError_def)
next
  case False
  from DecodeLastRune_width [OF this] assms(1) have "1 \<le> wid"
    by (metis snd_conv)
  then show ?thesis using assms(3) by simp
qed

function lastIndexNonSpace :: "nat list \<Rightarrow> nat \<Rightarrow> nat option" where
  "lastIndexNonSpace s i =
     (if i = 0 then None
      else
        case DecodeLastRune (take i s) of
          (r, wid) \<Rightarrow> if \<not> IsSpace r then Some (i - wid) else lastIndexNonSpace s (i - wid))"
  by pat_completeness auto
termination
  by (relation "measure (\<lambda>(s, i). i)") (auto intro: DecodeLastRune_space_width)

definition TrimRightSpace :: "string \<Rightarrow> string" where
  "TrimRightSpace s =
     (case lastIndexNonSpace (map of_char s) (length s) of
        None \<Rightarrow> []
      | Some i \<Rightarrow>
          if (0x80 :: nat) \<le> of_char (s ! i)
          then take (i + snd (decodeRune (map of_char (drop i s)))) s
          else take (i + 1) s)"

definition TrimSpace :: "string \<Rightarrow> string" where
  "TrimSpace s = TrimRightSpace (TrimLeftSpace s)"

text \<open>
  \<open>strings.Split(s, ",")\<close>: the pieces between the separators; a string without a
  separator, also the empty one, is a single piece.
\<close>

fun Split :: "string \<Rightarrow> char \<Rightarrow> string list" where
  "Split [] sep = [[]]"
| "Split (c # cs) sep =
     (if c = sep then [] # Split cs sep
      else (case Split cs sep of [] \<Rightarrow> [[c]] | x # xs \<Rightarrow> (c # x) # xs))"

section \<open>The edit handler\<close>

text \<open>
  The request, as far as the handler reads it: \<open>r.FormValue(name)\<close> is the first value
  of the form field, or the empty string.
\<close>

record Request =
  Method :: string
  Form :: "(string \<times> string) list"

definition FormValue :: "Request \<Rightarrow> string \<Rightarrow> string" where
  "FormValue r name = (case map_of (Form r) name of None \<Rightarrow> [] | Some v \<Rightarrow> v)"

definition getTrimmedFormValue :: "Request \<Rightarrow> string \<Rightarrow> string" where
  "getTrimmedFormValue r name = TrimSpace (FormValue r name)"

text \<open>
  Modelled from the spec: the constants \<open>FormatHtml\<close>, \<open>FormatTextile\<close>,
  \<open>FormatMarkdown\<close>, \<open>FormatText\<close>, \<open>FormatUnknown\<close> and the function \<open>validFormat\<close> are
  not in these sources. The spec has the format as an enumeration of HTML, Textile,
  Markdown and plain text, and a format is valid when it is one of these four.
\<close>

datatype format = FormatHtml | FormatTextile | FormatMarkdown | FormatText | FormatUnknown

definition validFormat :: "format \<Rightarrow> bool" where
  "validFormat f \<longleftrightarrow> f \<in> {FormatHtml, FormatTextile, FormatMarkdown, FormatText}"

definition formatNameToId :: "string \<Rightarrow> format" where
  "formatNameToId name =
     (if name = ''html'' then FormatHtml
      else if name = ''textile'' then FormatTextile
      else if name = ''markdown'' then FormatMarkdown
      else if name = ''text'' then FormatText
      else FormatUnknown)"

definition checkboxToBool :: "string \<Rightarrow> bool" where
  "checkboxToBool checkboxVal \<longleftrightarrow> ''on'' = checkboxVal"

definition tagsFromString :: "string \<Rightarrow> string list" where
  "tagsFromString s = map TrimSpace (Split s (CHR '',''))"

text \<open>
  What the handler does to the world, in order: the calls it makes to the store, the
  cache and the logger, and what it writes to the response (\<open>serveErrorMsg\<close>,
  \<open>http.Redirect\<close>).
\<close>

datatype event =
    CreateNewTextCall format string
  | CreateOrUpdateArticleCall nat
  | ClearArticlesCacheCall
  | ErrorfCall string
  | ServeErrorMsg string
  | Redirect string nat

text \<open>
  The world of the handler. \<open>heap\<close> holds the \<open>Article\<close> objects; a \<open>*Article\<close> is an
  index into it and \<open>nil\<close> is \<open>None\<close>, so that an assignment through the pointer is seen
  by every holder of the pointer. \<open>env\<close> is the state of everything behind the calls
  the handler makes (blob store, article repository, cache, log, clock); its type is a
  parameter.
\<close>

record ('e, 't) world =
  heap :: "'t Article list"
  env :: "'e"
  events :: "event list"

text \<open>
  The functions the handler calls that are not in these sources, as parameters: each
  takes the state behind it and returns the new one. \<open>CreateNewText\<close> and
  \<open>CreateOrUpdateArticle\<close> return an error (its message) or a result.

  Modelled from the spec: \<open>Store.CreateOrUpdateArticle\<close> is not in these sources. The
  spec has the repository persist the record it is handed and assign the identifier of a
  new record; it changes no other field. So the call is given the record and answers
  with the record's identifier, which the model writes into the object; the pointer it
  returns is the one it was given.
\<close>

record ('e, 't) services =
  CreateNewText :: "'e \<Rightarrow> format \<Rightarrow> string \<Rightarrow> (string + 't) \<times> 'e"
  CreateOrUpdateArticle :: "'e \<Rightarrow> 't Article \<Rightarrow> (string + int) \<times> 'e"
  clearArticlesCache :: "'e \<Rightarrow> 'e"
  Errorf :: "'e \<Rightarrow> string \<Rightarrow> 'e"
  Now :: "'e \<Rightarrow> time \<times> 'e"
  Permalink :: "'t Article \<Rightarrow> string"

definition emit :: "event \<Rightarrow> ('e, 't) world \<Rightarrow> ('e, 't) world" where
  "emit ev w = w\<lparr>events := events w @ [ev]\<rparr>"

definition serveErrorMsg :: "string \<Rightarrow> ('e, 't) world \<Rightarrow> ('e, 't) world" where
  "serveErrorMsg msg w = emit (ServeErrorMsg msg) w"

definition http_Redirect :: "string \<Rightarrow> nat \<Rightarrow> ('e, 't) world \<Rightarrow> ('e, 't) world" where
  "http_Redirect url code w = emit (Redirect url code) w"

definition logger_Errorf :: "('e, 't) services \<Rightarrow> string \<Rightarrow> ('e, 't) world \<Rightarrow> ('e, 't) world" where
  "logger_Errorf sv msg w = emit (ErrorfCall msg) (w\<lparr>env := Errorf sv (env w) msg\<rparr>)"

definition time_Now :: "('e, 't) services \<Rightarrow> ('e, 't) world \<Rightarrow> time \<times> ('e, 't) world" where
  "time_Now sv w = (case Now sv (env w) of (t, e) \<Rightarrow> (t, w\<lparr>env := e\<rparr>))"

definition store_CreateNewText ::
  "('e, 't) services \<Rightarrow> format \<Rightarrow> string \<Rightarrow> ('e, 't) world \<Rightarrow> (string + 't) \<times> ('e, 't) world" where
  "store_CreateNewText sv fmt body w =
     (case CreateNewText sv (env w) fmt body of
        (res, e) \<Rightarrow> (res, emit (CreateNewTextCall fmt body) (w\<lparr>env := e\<rparr>)))"

definition store_CreateOrUpdateArticle ::
  "('e, 't) services \<Rightarrow> nat \<Rightarrow> ('e, 't) world \<Rightarrow> (string + nat) \<times> ('e, 't) world" where
  "store_CreateOrUpdateArticle sv p w =
     (case CreateOrUpdateArticle sv (env w) (heap w ! p) of
        (Inl err, e) \<Rightarrow> (Inl err, emit (CreateOrUpdateArticleCall p) (w\<lparr>env := e\<rparr>))
      | (Inr newId, e) \<Rightarrow>
          (Inr p, emit (CreateOrUpdateArticleCall p)
                    (w\<lparr>env := e, heap := (heap w)[p := (heap w ! p)\<lparr>Id := newId\<rparr>]\<rparr>)))"

definition call_clearArticlesCache :: "('e, 't) services \<Rightarrow> ('e, 't) world \<Rightarrow> ('e, 't) world" where
  "call_clearArticlesCache sv w =
     emit ClearArticlesCacheCall (w\<lparr>env := clearArticlesCache sv (env w)\<rparr>)"

text \<open>An assignment to fields of the object behind a pointer.\<close>

definition assign :: "nat \<Rightarrow> ('t Article \<Rightarrow> 't Article) \<Rightarrow> ('e, 't) world \<Rightarrow> ('e, 't) world" where
  "assign p f w = w\<lparr>heap := (heap w)[p := f (heap w ! p)]\<rparr>"

text \<open>
  \<open>&Article{Id: 0, PublishedOn: time.Now(), Versions: make([]*Text, 0)}\<close>: a new object,
  the other fields at their zero values.
\<close>

definition freshArticle :: "time \<Rightarrow> 't Article" where
  "freshArticle t =
     \<lparr>Id = 0, PublishedOn = t, Title = [], IsPrivate = False, IsDeleted = False, Tags = [],
      Versions = []\<rparr>"

definition newArticle :: "('e, 't) services \<Rightarrow> ('e, 't) world \<Rightarrow> nat \<times> ('e, 't) world" where
  "newArticle sv w =
     (case time_Now sv w of
        (t, w1) \<Rightarrow> (length (heap w1), w1\<lparr>heap := heap w1 @ [freshArticle t]\<rparr>))"

text \<open>The part of \<open>createNewOrUpdatePost\<close> after the text has been created.\<close>

definition updateAndStore ::
  "('e, 't) services \<Rightarrow> Request \<Rightarrow> nat option \<Rightarrow> string \<Rightarrow> bool \<Rightarrow> string list \<Rightarrow> 't \<Rightarrow>
   ('e, 't) world \<Rightarrow> ('e, 't) world" where
  "updateAndStore sv r article title isPrivate tags text w1 =
     (case (case article of None \<Rightarrow> newArticle sv w1 | Some p \<Rightarrow> (p, w1)) of
        (p, w2) \<Rightarrow>
          let w3 = assign p (\<lambda>a. a\<lparr>Versions := Versions a @ [text]\<rparr>) w2;
              updatePublishedOn = checkboxToBool (getTrimmedFormValue r ''update_published_on'');
              w4 = (if updatePublishedOn
                    then (case time_Now sv w3 of
                            (t, w) \<Rightarrow> assign p (\<lambda>a. a\<lparr>PublishedOn := t\<rparr>) w)
                    else w3);
              w5 = assign p (\<lambda>a. a\<lparr>Title := title, IsPrivate := isPrivate, IsDeleted := False,
                                     Tags := tags\<rparr>) w4
          in
          (case store_CreateOrUpdateArticle sv p w5 of
             (Inl err, w6) \<Rightarrow>
               serveErrorMsg ''error creating article''
                 (logger_Errorf sv
                    (''createNewOrUpdatePost(): store.CreateNewArticle() failed with '' @ err) w6)
           | (Inr p1, w6) \<Rightarrow>
               let w7 = call_clearArticlesCache sv w6;
                   url = ''/'' @ Permalink sv (heap w7 ! p1)
               in http_Redirect url 301 w7))"

definition createNewOrUpdatePost ::
  "('e, 't) services \<Rightarrow> Request \<Rightarrow> nat option \<Rightarrow> ('e, 't) world \<Rightarrow> ('e, 't) world" where
  "createNewOrUpdatePost sv r article w =
     (let fmt = formatNameToId (getTrimmedFormValue r ''format'') in
      if \<not> validFormat fmt then serveErrorMsg ''invalid format'' w
      else
        let title = getTrimmedFormValue r ''title'' in
        if title = [] then serveErrorMsg ''empty title not valid'' w
        else
          let body = getTrimmedFormValue r ''note'' in
          if length body < 10 then serveErrorMsg ''body too small'' w
          else
            let isPrivate = checkboxToBool (getTrimmedFormValue r ''private_checkbox'');
                tags = tagsFromString (getTrimmedFormValue r ''tags'')
            in
            (case store_CreateNewText sv fmt body w of
               (Inl err, w1) \<Rightarrow>
                 serveErrorMsg ''error creating text''
                   (logger_Errorf sv
                      (''createNewOrUpdatePost(): store.CreateNewText() failed with '' @ err) w1)
             | (Inr text, w1) \<Rightarrow> updateAndStore sv r article title isPrivate tags text w1))"

section \<open>The store, the repository and the index, from the spec\<close>

text \<open>
  Modelled from the spec: the blob store (\<open>Store.CreateNewText\<close>), the article
  repository (\<open>Store.CreateOrUpdateArticle\<close>), the article index
  (\<open>clearArticlesCache\<close> and its readers), the logger and \<open>Article.Permalink\<close> are not in
  these sources. The spec gives:
  \<^item> the blob store writes a body once per content and reports a write failure to the
    caller;
  \<^item> the repository persists the record, giving a new record (id 0) a fresh id computed
    from the ids in use, and reports a write failure to the caller;
  \<^item> \<open>invalidate()\<close> triggers a synchronous \<open>rebuild()\<close>, a full scan of the persisted
    records that leaves out the soft-deleted ones;
  \<^item> \<open>getArticleById\<close> and \<open>listByTag\<close> read the current snapshot only, \<open>listByTag\<close> by
    publish date, most recent first.
  A text is identified by its format and body here. Whether a write fails is decided
  outside the program: \<open>faults\<close> lists the outcome of the storage operations to come
  (\<open>True\<close> for a failure; none when the list is exhausted).
\<close>

type_synonym blob = "format \<times> string"

record site =
  records :: "blob Article list"
  blobs :: "blob list"
  index :: "blob Article list option"
  errorLog :: "string list"
  clock :: time
  faults :: "bool list"

definition nextFault :: "site \<Rightarrow> bool \<times> site" where
  "nextFault st = (case faults st of [] \<Rightarrow> (False, st) | f # fs \<Rightarrow> (f, st\<lparr>faults := fs\<rparr>))"

definition put :: "site \<Rightarrow> format \<Rightarrow> string \<Rightarrow> (string + blob) \<times> site" where
  "put st fmt body =
     (case nextFault st of
        (True, st1) \<Rightarrow> (Inl ''write failed'', st1)
      | (False, st1) \<Rightarrow>
          (Inr (fmt, body),
           if (fmt, body) \<in> set (blobs st1) then st1
           else st1\<lparr>blobs := blobs st1 @ [(fmt, body)]\<rparr>))"

definition persist :: "site \<Rightarrow> blob Article \<Rightarrow> (string + int) \<times> site" where
  "persist st a =
     (case nextFault st of
        (True, st1) \<Rightarrow> (Inl ''write failed'', st1)
      | (False, st1) \<Rightarrow>
          let newId = (if Id a = 0 then findUniqueArticleId (records st1) else Id a) in
          (Inr newId,
           st1\<lparr>records := filter (\<lambda>b. Id b \<noteq> newId) (records st1) @ [a\<lparr>Id := newId\<rparr>]\<rparr>))"

definition rebuild :: "site \<Rightarrow> site" where
  "rebuild st = st\<lparr>index := Some (filter (\<lambda>a. \<not> IsDeleted a) (records st))\<rparr>"

definition invalidate :: "site \<Rightarrow> site" where
  "invalidate st = rebuild st"

definition getArticleById :: "site \<Rightarrow> int \<Rightarrow> blob Article option" where
  "getArticleById st i =
     (case index st of None \<Rightarrow> None | Some as \<Rightarrow> find (\<lambda>a. Id a = i) as)"

definition listByTag :: "site \<Rightarrow> string \<Rightarrow> blob Article list" where
  "listByTag st tag =
     (case index st of
        None \<Rightarrow> []
      | Some as \<Rightarrow> rev (sort_key PublishedOn (filter (\<lambda>a. tag \<in> set (Tags a)) as)))"

definition siteServices :: "(blob Article \<Rightarrow> string) \<Rightarrow> (site, blob) services" where
  "siteServices permalink =
     \<lparr>CreateNewText = put,
      CreateOrUpdateArticle = persist,
      clearArticlesCache = invalidate,
      Errorf = (\<lambda>st msg. st\<lparr>errorLog := errorLog st @ [msg]\<rparr>),
      Now = (\<lambda>st. (clock st, st\<lparr>clock := clock st + 1\<rparr>)),
      Permalink = permalink\<rparr>"

text \<open>Concrete inputs: a site with one article, and edit requests.\<close>

definition article1 :: "blob Article" where
  "article1 =
     \<lparr>Id = 1, PublishedOn = 100, Title = ''Old title'', IsPrivate = False, IsDeleted = False,
      Tags = [''go''], Versions = [(FormatMarkdown, ''the first body'')]\<rparr>"

definition site1 :: "bool list \<Rightarrow> site" where
  "site1 fs =
     \<lparr>records = [article1], blobs = [(FormatMarkdown, ''the first body'')],
      index = Some [article1], errorLog = [], clock = 500, faults = fs\<rparr>"

definition world1 :: "bool list \<Rightarrow> (site, blob) world" where
  "world1 fs = \<lparr>heap = [article1], env = site1 fs, events = []\<rparr>"

definition editRequest :: "string \<Rightarrow> string \<Rightarrow> string \<Rightarrow> Request" where
  "editRequest fmt title body =
     \<lparr>Method = ''POST'',
      Form = [(''format'', fmt), (''title'', title), (''note'', body), (''tags'', ''go, web'')]\<rparr>"

definition titleLink :: "blob Article \<Rightarrow> string" where
  "titleLink a = ''article/'' @ Title a"

text \<open>
  A call has succeeded when the last thing it did was to redirect to the article.
\<close>

definition succeeded :: "('e, 't) world \<Rightarrow> bool" where
  "succeeded w = (case rev (events w) of Redirect url code # _ \<Rightarrow> True | _ \<Rightarrow> False)"

text \<open>
  The assignments of \<open>createNewOrUpdatePost\<close> to the article, taken together: \<open>bump\<close>
  is the clock reading when the publish date is to be refreshed.
\<close>

definition editedArticle ::
  "'t Article \<Rightarrow> 't \<Rightarrow> time option \<Rightarrow> string \<Rightarrow> bool \<Rightarrow> string list \<Rightarrow> 't Article" where
  "editedArticle a tx bump title isPrivate tags =
     a\<lparr>Versions := Versions a @ [tx],
       PublishedOn := (case bump of None \<Rightarrow> PublishedOn a | Some t \<Rightarrow> t),
       Title := title, IsPrivate := isPrivate, IsDeleted := False, Tags := tags\<rparr>"

text \<open>
  The world in which the article is updated, once the text \<open>tx\<close> has been created and
  has left the state \<open>e1\<close> behind: for a new article the object is allocated first, its
  publish date read from the clock.
\<close>

definition afterText ::
  "('e, 't) services \<Rightarrow> nat option \<Rightarrow> format \<Rightarrow> string \<Rightarrow> 'e \<Rightarrow> ('e, 't) world \<Rightarrow> ('e, 't) world" where
  "afterText sv article fmt body e1 w =
     (case article of
        Some p \<Rightarrow> \<lparr>heap = heap w, env = e1, events = events w @ [CreateNewTextCall fmt body]\<rparr>
      | None \<Rightarrow>
          \<lparr>heap = heap w @ [freshArticle (fst (Now sv e1))], env = snd (Now sv e1),
           events = events w @ [CreateNewTextCall fmt body]\<rparr>)"

text \<open>
  The pointer the call works on (for a new article the object it allocates), and the
  condition that a pointer passed in points to an object.
\<close>

definition target :: "nat option \<Rightarrow> ('e, 't) world \<Rightarrow> nat" where
  "target article w = (case article of None \<Rightarrow> length (heap w) | Some p \<Rightarrow> p)"

definition validPointer :: "nat option \<Rightarrow> ('e, 't) world \<Rightarrow> bool" where
  "validPointer article w = (case article of None \<Rightarrow> True | Some p \<Rightarrow> p < length (heap w))"

text \<open>
  The article as it is handed to \<open>CreateOrUpdateArticle\<close>, and the state behind the
  services at that moment.
\<close>

definition handedOver ::
  "('e, 't) services \<Rightarrow> Request \<Rightarrow> nat option \<Rightarrow> 't \<Rightarrow> 'e \<Rightarrow> ('e, 't) world \<Rightarrow> 't Article" where
  "handedOver sv r article tx e1 w =
     (let w1 = afterText sv article (formatNameToId (getTrimmedFormValue r ''format''))
                 (getTrimmedFormValue r ''note'') e1 w
      in editedArticle (heap w1 ! target article w) tx
           (if checkboxToBool (getTrimmedFormValue r ''update_published_on'')
            then Some (fst (Now sv (env w1))) else None)
           (getTrimmedFormValue r ''title'')
           (checkboxToBool (getTrimmedFormValue r ''private_checkbox''))
           (tagsFromString (getTrimmedFormValue r ''tags'')))"

definition envAtStore ::
  "('e, 't) services \<Rightarrow> Request \<Rightarrow> nat option \<Rightarrow> 'e \<Rightarrow> ('e, 't) world \<Rightarrow> 'e" where
  "envAtStore sv r article e1 w =
     (let w1 = afterText sv article (formatNameToId (getTrimmedFormValue r ''format''))
                 (getTrimmedFormValue r ''note'') e1 w
      in if checkboxToBool (getTrimmedFormValue r ''update_published_on'')
         then snd (Now sv (env w1)) else env w1)"

text \<open>
  A sequence of calls on the article behind \<open>p\<close>, one request after the other, and the
  condition that each of them succeeds.
\<close>

fun edits :: "('e, 't) services \<Rightarrow> nat \<Rightarrow> Request list \<Rightarrow> ('e, 't) world \<Rightarrow> ('e, 't) world" where
  "edits sv p [] w = w"
| "edits sv p (r # rs) w = edits sv p rs (createNewOrUpdatePost sv r (Some p) w)"

fun allSucceeded :: "('e, 't) services \<Rightarrow> nat \<Rightarrow> Request list \<Rightarrow> ('e, 't) world \<Rightarrow> bool" where
  "allSucceeded sv p [] w = True"
| "allSucceeded sv p (r # rs) w =
     (succeeded (createNewOrUpdatePost sv r (Some p) w) \<and>
      allSucceeded sv p rs (createNewOrUpdatePost sv r (Some p) w))"

text \<open>An edit request with the box \<open>update_published_on\<close> ticked.\<close>

definition bumpRequest :: "string \<Rightarrow> string \<Rightarrow> string \<Rightarrow> Request" where
  "bumpRequest fmt title body =
     (editRequest fmt title body)
       \<lparr>Form := (''update_published_on'', ''on'') # Form (editRequest fmt title body)\<rparr>"

section \<open>Properties of findUniqueArticleId\<close>

lemma wrap64_id: "in_int64 x \<Longrightarrow> wrap64 x = x"
  by (simp add: wrap64_def in_int64_def)

text \<open>
  On a strictly increasing run that starts right after \<open>p\<close>, the scan returns the first
  integer above \<open>p\<close> that is missing from the run.
\<close>

lemma scanIds_first_gap:
  assumes "sorted (p # xs)" and "distinct (p # xs)"
    and "\<forall>x \<in> set (p # xs). - (2 ^ 63) \<le> x \<and> x < 2 ^ 63 - 1"
  shows "scanIds p xs \<notin> set (p # xs) \<and> p < scanIds p xs \<and>
         (\<forall>k. p < k \<and> k < scanIds p xs \<longrightarrow> k \<in> set xs)"
  using assms
proof (induction xs arbitrary: p)
  case Nil
  then have "wrap64 (p + 1) = p + 1"
    by (intro wrap64_id) (simp add: in_int64_def)
  then show ?case by simp
next
  case (Cons x xs)
  have w: "wrap64 (p + 1) = p + 1"
    using Cons.prems(3) by (intro wrap64_id) (simp add: in_int64_def)
  have px: "p < x"
    using Cons.prems(1,2) by (simp add: order_less_le)
  show ?case
  proof (cases "x = p + 1")
    case True
    have ih: "scanIds x xs \<notin> set (x # xs) \<and> x < scanIds x xs \<and>
              (\<forall>k. x < k \<and> k < scanIds x xs \<longrightarrow> k \<in> set xs)"
      using Cons.prems by (intro Cons.IH) auto
    have eq: "scanIds p (x # xs) = scanIds x xs"
      using True w by simp
    have gap: "k \<in> set (x # xs)" if "p < k" "k < scanIds x xs" for k
    proof (cases "k = x")
      case False
      with that True have "x < k" by simp
      with ih that show ?thesis by simp
    qed simp
    show ?thesis
      unfolding eq using ih px gap Cons.prems(1) by auto
  next
    case False
    have eq: "scanIds p (x # xs) = p + 1"
      using False w by simp
    have "\<forall>y \<in> set (x # xs). p + 1 < y"
      using Cons.prems(1) px False by fastforce
    then show ?thesis
      unfolding eq by auto
  qed
qed

lemma sorted_hd_Min:
  assumes "sorted (p # xs)"
  shows "Min (set (p # xs)) = p"
  using assms by (intro Min_eqI) auto

text \<open>
  C2. The spec has it that for every set of existing ids the new id is the smallest positive
  integer not in use. The code starts its scan at the smallest existing id, so what holds
  is: for an empty store the id is 1; otherwise the id is the smallest integer above the
  smallest existing id that is not in use. It is never an id in use, and it is the smallest
  positive unused integer whenever the smallest existing id is 1.
\<close>

theorem findUniqueArticleId_first_gap:
  fixes articles :: "'t Article list"
  assumes "distinct (map Id articles)"
    and "\<forall>a \<in> set articles. - (2 ^ 63) \<le> Id a \<and> Id a < 2 ^ 63 - 1"
  shows "(articles = [] \<longrightarrow> findUniqueArticleId articles = 1) \<and>
         (articles \<noteq> [] \<longrightarrow>
            findUniqueArticleId articles \<notin> Id ` set articles \<and>
            Min (Id ` set articles) < findUniqueArticleId articles \<and>
            (\<forall>k. Min (Id ` set articles) < k \<and> k < findUniqueArticleId articles
                  \<longrightarrow> k \<in> Id ` set articles) \<and>
            (Min (Id ` set articles) = 1 \<longrightarrow>
               (\<forall>k. 0 < k \<and> k < findUniqueArticleId articles \<longrightarrow> k \<in> Id ` set articles)))"
proof (cases articles)
  case Nil
  then show ?thesis by (simp add: findUniqueArticleId_def)
next
  case (Cons a as)
  define ids where "ids = map Id articles"
  have ne: "ids \<noteq> []" using Cons by (simp add: ids_def)
  then have "sort ids \<noteq> []"
    by (metis length_sort length_0_conv)
  then obtain p xs where ps: "sort ids = p # xs"
    by (cases "sort ids") auto
  have st: "sorted (p # xs)" and di: "distinct (p # xs)"
    using ps assms(1) by (metis sorted_sort, metis distinct_sort ids_def)
  have se: "set (p # xs) = Id ` set articles"
    using ps by (metis set_sort set_map ids_def)
  have rg: "\<forall>x \<in> set (p # xs). - (2 ^ 63) \<le> x \<and> x < 2 ^ 63 - 1"
    unfolding se using assms(2) by auto
  have f: "findUniqueArticleId articles = scanIds p xs"
    using ne ps by (simp add: findUniqueArticleId_def ids_def)
  have mn: "Min (Id ` set articles) = p"
    using sorted_hd_Min [OF st] se by simp
  have g: "scanIds p xs \<notin> set (p # xs) \<and> p < scanIds p xs \<and>
           (\<forall>k. p < k \<and> k < scanIds p xs \<longrightarrow> k \<in> set xs)"
    by (rule scanIds_first_gap [OF st di rg])
  have low: "k \<in> Id ` set articles" if "p = 1" "0 < k" "k < scanIds p xs" for k
  proof (cases "k = 1")
    case True
    then show ?thesis using that(1) se by auto
  next
    case False
    with that have "p < k" by simp
    with g that(3) have "k \<in> set xs" by blast
    then show ?thesis using se by auto
  qed
  have up: "k \<in> Id ` set articles" if "p < k" "k < scanIds p xs" for k
    using g that se by auto
  show ?thesis
    unfolding f mn using Cons g se low up by auto
qed

theorem findUniqueArticleId_first_gap_witness:
  "distinct (map Id [articleWithId 4, articleWithId 1, articleWithId 2]) \<and>
   list_all (\<lambda>a. - (2 ^ 63) \<le> Id a \<and> Id a < 2 ^ 63 - 1)
     [articleWithId 4, articleWithId 1, articleWithId 2] \<and>
   findUniqueArticleId [articleWithId 4, articleWithId 1, articleWithId 2] = 3 \<and>
   findUniqueArticleId [articleWithId 4, articleWithId 1, articleWithId 2]
     \<notin> Id ` set [articleWithId 4, articleWithId 1, articleWithId 2] \<and>
   Min (Id ` set [articleWithId 4, articleWithId 1, articleWithId 2])
     < findUniqueArticleId [articleWithId 4, articleWithId 1, articleWithId 2]"
proof -
  have d: "distinct (map Id [articleWithId 4, articleWithId 1, articleWithId 2])"
    by (simp add: articleWithId_def)
  have r: "\<forall>a \<in> set [articleWithId 4, articleWithId 1, articleWithId 2].
      - (2 ^ 63) \<le> Id a \<and> Id a < 2 ^ 63 - 1"
    by (simp add: articleWithId_def)
  have v: "findUniqueArticleId [articleWithId 4, articleWithId 1, articleWithId 2] = 3"
    by (simp add: articleWithId_def findUniqueArticleId_def wrap64_def)
  show ?thesis
    using d r v findUniqueArticleId_first_gap [OF d r] by simp
qed

text \<open>
  With the ids 2 and 3 in use, 1 is the smallest positive integer not in use, and the
  code returns 4.
\<close>

theorem findUniqueArticleId_counterexample:
  "findUniqueArticleId [articleWithId 2, articleWithId 3] = 4 \<and>
   (1 :: int) \<notin> Id ` set [articleWithId 2, articleWithId 3] \<and> (0 :: int) < 1 \<and> (1 :: int) < 4"
  by (simp add: articleWithId_def findUniqueArticleId_def wrap64_def)

section \<open>Properties of the backup gate\<close>

lemma S3BackupEnabled_iff:
  "fst (S3BackupEnabled inProd cfg) \<longleftrightarrow>
     inProd \<and> \<not> StringEmpty (AwsAccess cfg) \<and> \<not> StringEmpty (AwsSecret cfg) \<and>
     \<not> StringEmpty (S3BackupBucket cfg) \<and> \<not> StringEmpty (S3BackupDir cfg)"
  by (simp add: S3BackupEnabled_def)

lemma S3BackupEnabled_logs:
  "length (snd (S3BackupEnabled inProd cfg)) = (if fst (S3BackupEnabled inProd cfg) then 0 else 1)"
  by (simp add: S3BackupEnabled_def)

lemma genNewArticle_not_Serving [simp]: "genNewArticle co title \<noteq> Serving"
  by (simp add: genNewArticle_def split: go.splits)

lemma main_config:
  assumes "outcome (main fl co) = Serving"
  obtains cfg0 where "fileDecode co = Inr cfg0"
    and "notices (main fl co) =
           snd (S3BackupEnabled (inProduction fl)
                  (if \<not> inProduction fl then cfg0\<lparr>AnalyticsCode := Some []\<rparr> else cfg0))
           @ [''Started runing on '' @ httpAddr fl]"
    and "backupLoops (main fl co) =
           (if fst (S3BackupEnabled (inProduction fl)
                  (if \<not> inProduction fl then cfg0\<lparr>AnalyticsCode := Some []\<rparr> else cfg0))
            then 1 else 0)"
  using assms
  by (auto simp: main_def readConfig_def Let_def andThen_def
      split: if_splits go.splits sum.splits option.splits prod.splits)

lemma main_backupLoops:
  "backupLoops (main fl co) = 0 \<or>
   (\<exists>cfg0. fileDecode co = Inr cfg0 \<and> outcome (main fl co) = Serving \<and>
      fst (S3BackupEnabled (inProduction fl)
            (if \<not> inProduction fl then cfg0\<lparr>AnalyticsCode := Some []\<rparr> else cfg0)))"
  by (auto simp: main_def readConfig_def Let_def andThen_def
      split: if_splits go.splits sum.splits option.splits prod.splits)

text \<open>
  The gate itself: if one of the four backup fields (access key, secret, bucket, remote
  directory) is nil or empty, \<open>S3BackupEnabled\<close> answers false and logs exactly one notice,
  and a run of \<open>main\<close> on such a configuration never starts \<open>BackupLoop\<close>, however it ends.
  A run that gets to serve has evaluated the gate once: its notices are that one line and
  the start-up line. With the bucket present and empty the run does get to serve.
\<close>

lemma backup_gate_closed_when_field_empty:
  assumes "StringEmpty (AwsAccess cfg) \<or> StringEmpty (AwsSecret cfg) \<or>
           StringEmpty (S3BackupBucket cfg) \<or> StringEmpty (S3BackupDir cfg)"
    and "fileDecode co = Inr cfg"
  shows "fst (S3BackupEnabled inProd cfg) = False \<and>
         length (snd (S3BackupEnabled inProd cfg)) = 1 \<and>
         backupLoops (main fl co) = 0 \<and>
         (outcome (main fl co) = Serving \<longrightarrow>
            (\<exists>line. notices (main fl co) = [line, ''Started runing on '' @ httpAddr fl]))"
proof -
  have off: "\<not> fst (S3BackupEnabled p cfg)" for p
    using assms(1) by (auto simp: S3BackupEnabled_iff)
  have off': "\<not> fst (S3BackupEnabled p (cfg\<lparr>AnalyticsCode := Some []\<rparr>))" for p
    using assms(1) by (auto simp: S3BackupEnabled_iff)
  have one: "length (snd (S3BackupEnabled inProd cfg)) = 1"
    using off [of inProd] by (simp add: S3BackupEnabled_logs)
  have loops: "backupLoops (main fl co) = 0"
    using main_backupLoops [of fl co] assms(2) off off' by (auto split: if_splits)
  have lines: "\<exists>line. notices (main fl co) = [line, ''Started runing on '' @ httpAddr fl]"
    if "outcome (main fl co) = Serving"
  proof -
    from that obtain cfg0 where c: "fileDecode co = Inr cfg0"
      and n: "notices (main fl co) =
           snd (S3BackupEnabled (inProduction fl)
                  (if \<not> inProduction fl then cfg0\<lparr>AnalyticsCode := Some []\<rparr> else cfg0))
           @ [''Started runing on '' @ httpAddr fl]"
      by (rule main_config)
    define c1 where "c1 = (if \<not> inProduction fl then cfg0\<lparr>AnalyticsCode := Some []\<rparr> else cfg0)"
    have "cfg0 = cfg" using c assms(2) by simp
    then have "\<not> fst (S3BackupEnabled (inProduction fl) c1)"
      using off off' by (simp add: c1_def)
    then have "length (snd (S3BackupEnabled (inProduction fl) c1)) = 1"
      by (simp add: S3BackupEnabled_logs)
    then obtain line where "snd (S3BackupEnabled (inProduction fl) c1) = [line]"
      by (cases "snd (S3BackupEnabled (inProduction fl) c1)") auto
    then show ?thesis using n by (simp add: c1_def)
  qed
  show ?thesis using off one loops lines by blast
qed

lemma backup_gate_closed_example:
  "StringEmpty (S3BackupBucket (fullConfig\<lparr>S3BackupBucket := Some []\<rparr>)) \<and>
   fst (S3BackupEnabled True (fullConfig\<lparr>S3BackupBucket := Some []\<rparr>)) = False \<and>
   outcome (main (serverFlags True) (collaboratorsOk (fullConfig\<lparr>S3BackupBucket := Some []\<rparr>)))
     = Serving \<and>
   backupLoops (main (serverFlags True) (collaboratorsOk (fullConfig\<lparr>S3BackupBucket := Some []\<rparr>)))
     = 0"
proof -
  have e: "StringEmpty (AwsAccess (fullConfig\<lparr>S3BackupBucket := Some []\<rparr>)) \<or>
           StringEmpty (AwsSecret (fullConfig\<lparr>S3BackupBucket := Some []\<rparr>)) \<or>
           StringEmpty (S3BackupBucket (fullConfig\<lparr>S3BackupBucket := Some []\<rparr>)) \<or>
           StringEmpty (S3BackupDir (fullConfig\<lparr>S3BackupBucket := Some []\<rparr>))"
    by (simp add: StringEmpty_def)
  have d: "fileDecode (collaboratorsOk (fullConfig\<lparr>S3BackupBucket := Some []\<rparr>))
           = Inr (fullConfig\<lparr>S3BackupBucket := Some []\<rparr>)"
    by (simp add: collaboratorsOk_def)
  have s: "outcome (main (serverFlags True)
             (collaboratorsOk (fullConfig\<lparr>S3BackupBucket := Some []\<rparr>))) = Serving"
    by (simp add: main_def readConfig_def collaboratorsOk_def fullConfig_def serverFlags_def
        deref_def hexDecodeOk_def makeBackupConfig_def andThen_def S3BackupEnabled_def
        StringEmpty_def)
  show ?thesis
    using backup_gate_closed_when_field_empty [OF e d, of True "serverFlags True"] s
    by (simp add: StringEmpty_def)
qed

lemma makeBackupConfig_nil:
  assumes "AwsAccess cfg = None \<or> AwsSecret cfg = None \<or> S3BackupBucket cfg = None \<or>
           S3BackupDir cfg = None"
  shows "makeBackupConfig cfg = Panic ''invalid memory address or nil pointer dereference''"
  using assms
  by (auto simp: makeBackupConfig_def andThen_def deref_def split: option.splits)

lemma main_nil_field_panics:
  assumes "AwsAccess cfg = None \<or> AwsSecret cfg = None \<or> S3BackupBucket cfg = None \<or>
           S3BackupDir cfg = None"
    and "newArticleTitle fl = []" and "readConfig co = Return (None, cfg)"
    and "\<not> NewStore_err co" and "dataDir_exists co" and "\<not> NewStoreCrashes_err co"
  shows "outcome (main fl co) = Panicked ''invalid memory address or nil pointer dereference''"
proof -
  define c1 where "c1 = (if \<not> inProduction fl then cfg\<lparr>AnalyticsCode := Some []\<rparr> else cfg)"
  have "AwsAccess c1 = None \<or> AwsSecret c1 = None \<or> S3BackupBucket c1 = None \<or>
         S3BackupDir c1 = None"
    using assms(1) by (auto simp: c1_def)
  then have "makeBackupConfig c1 = Panic ''invalid memory address or nil pointer dereference''"
    by (rule makeBackupConfig_nil)
  then show ?thesis
    using assms(2-6) by (simp add: main_def Let_def c1_def)
qed

lemma main_not_serving_silent:
  "outcome (main fl co) = Serving \<or> notices (main fl co) = []"
  by (auto simp: main_def Let_def split: if_splits go.splits sum.splits option.splits prod.splits)

text \<open>
  C7. The spec has it that a configuration in which one of the four backup fields is missing
  disables the backup pipeline and that the disablement is logged at startup. A field
  that is missing from \<open>config.json\<close> is a nil pointer after decoding, and \<open>main\<close>
  dereferences the four pointers to fill \<open>BackupConfig\<close> before it consults
  \<open>S3BackupEnabled\<close>. So a run on a decoded configuration with one of the four fields nil
  never gets to serve, and it ends without a single notice: no \<open>BackupLoop\<close> is started,
  and the disablement is not logged either, although the gate, had it been called on
  that configuration, would have answered false with exactly one notice. When nothing
  else is wrong (a server run, \<open>readConfig\<close> without error, both stores and the data
  directory in order) the run ends in the nil pointer panic.
\<close>

theorem main_missing_field_not_logged:
  assumes "fileDecode co = Inr cfg"
    and "AwsAccess cfg = None \<or> AwsSecret cfg = None \<or> S3BackupBucket cfg = None \<or>
         S3BackupDir cfg = None"
  shows "outcome (main fl co) \<noteq> Serving \<and> notices (main fl co) = [] \<and>
         backupLoops (main fl co) = 0 \<and>
         fst (S3BackupEnabled inProd cfg) = False \<and>
         length (snd (S3BackupEnabled inProd cfg)) = 1 \<and>
         (newArticleTitle fl = [] \<and> readConfig co = Return (None, cfg) \<and>
          \<not> NewStore_err co \<and> dataDir_exists co \<and> \<not> NewStoreCrashes_err co \<longrightarrow>
            outcome (main fl co) = Panicked ''invalid memory address or nil pointer dereference'')"
proof -
  have nil: "AwsAccess c = None \<or> AwsSecret c = None \<or> S3BackupBucket c = None \<or>
           S3BackupDir c = None"
    if "c = cfg \<or> c = cfg\<lparr>AnalyticsCode := Some []\<rparr>" for c
    using assms(2) that by auto
  have ns: "outcome (main fl co) \<noteq> Serving"
  proof
    assume s: "outcome (main fl co) = Serving"
    then obtain cfg0 where c: "fileDecode co = Inr cfg0"
      by (rule main_config)
    then have c0: "cfg0 = cfg" using assms(1) by simp
    define c1 where "c1 = (if \<not> inProduction fl then cfg\<lparr>AnalyticsCode := Some []\<rparr> else cfg)"
    have "c1 = cfg \<or> c1 = cfg\<lparr>AnalyticsCode := Some []\<rparr>"
      by (simp add: c1_def)
    from makeBackupConfig_nil [OF nil [OF this]]
    have p: "makeBackupConfig c1 = Panic ''invalid memory address or nil pointer dereference''" .
    from s show False
      using assms(1) p
      by (auto simp: main_def readConfig_def Let_def c1_def
          split: if_splits go.splits sum.splits option.splits prod.splits)
  qed
  have empty: "StringEmpty (AwsAccess cfg) \<or> StringEmpty (AwsSecret cfg) \<or>
           StringEmpty (S3BackupBucket cfg) \<or> StringEmpty (S3BackupDir cfg)"
    using assms(2) by (auto simp: StringEmpty_def)
  then have off: "\<not> fst (S3BackupEnabled inProd cfg)"
    by (auto simp: S3BackupEnabled_iff)
  then have one: "length (snd (S3BackupEnabled inProd cfg)) = 1"
    by (simp add: S3BackupEnabled_logs)
  have loops: "backupLoops (main fl co) = 0"
    using main_backupLoops [of fl co] ns by auto
  have panics: "outcome (main fl co) = Panicked ''invalid memory address or nil pointer dereference''"
    if "newArticleTitle fl = [] \<and> readConfig co = Return (None, cfg) \<and>
        \<not> NewStore_err co \<and> dataDir_exists co \<and> \<not> NewStoreCrashes_err co"
    using that main_nil_field_panics [OF assms(2), of fl co] by blast
  show ?thesis
    using ns main_not_serving_silent [of fl co] loops off one panics by simp
qed

theorem main_missing_field_not_logged_witness:
  "fileDecode (collaboratorsOk (fullConfig\<lparr>S3BackupDir := None\<rparr>))
     = Inr (fullConfig\<lparr>S3BackupDir := None\<rparr>) \<and>
   S3BackupDir (fullConfig\<lparr>S3BackupDir := None\<rparr>) = None \<and>
   outcome (main (serverFlags True) (collaboratorsOk (fullConfig\<lparr>S3BackupDir := None\<rparr>)))
     = Panicked ''invalid memory address or nil pointer dereference'' \<and>
   notices (main (serverFlags True) (collaboratorsOk (fullConfig\<lparr>S3BackupDir := None\<rparr>))) = [] \<and>
   S3BackupEnabled True (fullConfig\<lparr>S3BackupDir := None\<rparr>)
     = (False, [''s3 backups disabled because S3BackupDir not defined in config.json''])"
proof -
  let ?cfg = "fullConfig\<lparr>S3BackupDir := None\<rparr>"
  have d: "fileDecode (collaboratorsOk ?cfg) = Inr ?cfg"
    by (simp add: collaboratorsOk_def)
  have n: "AwsAccess ?cfg = None \<or> AwsSecret ?cfg = None \<or> S3BackupBucket ?cfg = None \<or>
         S3BackupDir ?cfg = None"
    by simp
  have c: "newArticleTitle (serverFlags True) = [] \<and>
           readConfig (collaboratorsOk ?cfg) = Return (None, ?cfg) \<and>
           \<not> NewStore_err (collaboratorsOk ?cfg) \<and> dataDir_exists (collaboratorsOk ?cfg) \<and>
           \<not> NewStoreCrashes_err (collaboratorsOk ?cfg)"
    by (simp add: readConfig_def collaboratorsOk_def fullConfig_def serverFlags_def
        deref_def hexDecodeOk_def)
  have g: "S3BackupEnabled True ?cfg
     = (False, [''s3 backups disabled because S3BackupDir not defined in config.json''])"
    by (simp add: S3BackupEnabled_def fullConfig_def StringEmpty_def)
  from main_missing_field_not_logged [OF d n, of "serverFlags True" True] d c g
  show ?thesis by simp
qed

text \<open>
  C8. The spec has it that a configuration that lacks one of the four backup fields is no startup
  failure. \<open>main\<close> dereferences the four pointers to fill \<open>BackupConfig\<close> before it
  consults \<open>S3BackupEnabled\<close>, so a configuration file without the \<open>AwsAccess\<close> key, every
  collaborator being in order, ends the run in a nil pointer panic, in production or not,
  although \<open>S3BackupEnabled\<close> itself treats the nil pointer as a reason to disable backups.
\<close>

theorem main_missing_field_panics:
  "outcome (main (serverFlags True) (collaboratorsOk (fullConfig\<lparr>AwsAccess := None\<rparr>)))
     = Panicked ''invalid memory address or nil pointer dereference'' \<and>
   outcome (main (serverFlags False) (collaboratorsOk (fullConfig\<lparr>AwsAccess := None\<rparr>)))
     = Panicked ''invalid memory address or nil pointer dereference'' \<and>
   S3BackupEnabled True (fullConfig\<lparr>AwsAccess := None\<rparr>)
     = (False, [''s3 backups disabled because AwsAccess not defined in config.json'']) \<and>
   outcome (main (serverFlags True) (collaboratorsOk (fullConfig\<lparr>AwsAccess := Some []\<rparr>)))
     = Serving"
  by (simp add: main_def readConfig_def collaboratorsOk_def fullConfig_def serverFlags_def
      deref_def hexDecodeOk_def makeBackupConfig_def andThen_def S3BackupEnabled_def
      StringEmpty_def)

text \<open>
  C9. Outside production mode \<open>S3BackupEnabled\<close> returns false whatever the configuration
  holds, also when all four backup fields are present and not empty, and no run of
  \<open>main\<close> started without the production flag starts \<open>BackupLoop\<close>. (In production mode
  with the four fields present and not empty it returns true.)
\<close>

theorem backup_only_in_production:
  "fst (S3BackupEnabled False cfg) = False \<and>
   backupLoops (main (fl\<lparr>inProduction := False\<rparr>) co) = 0 \<and>
   fst (S3BackupEnabled True fullConfig) = True"
proof -
  have a: "fst (S3BackupEnabled False c) = False" for c
    by (simp add: S3BackupEnabled_def)
  have b: "backupLoops (main (fl\<lparr>inProduction := False\<rparr>) co) = 0"
    using main_backupLoops [of "fl\<lparr>inProduction := False\<rparr>" co] a by auto
  have c: "fst (S3BackupEnabled True fullConfig) = True"
    by (simp add: S3BackupEnabled_def fullConfig_def StringEmpty_def)
  show ?thesis using a b c by simp
qed

theorem backup_only_in_production_witness:
  "fst (S3BackupEnabled False fullConfig) = False \<and>
   outcome (main (serverFlags False) (collaboratorsOk fullConfig)) = Serving \<and>
   backupLoops (main (serverFlags False) (collaboratorsOk fullConfig)) = 0 \<and>
   backupLoops (main (serverFlags True) (collaboratorsOk fullConfig)) = 1"
proof -
  have s: "outcome (main (serverFlags False) (collaboratorsOk fullConfig)) = Serving \<and>
           backupLoops (main (serverFlags True) (collaboratorsOk fullConfig)) = 1"
    by (simp add: main_def readConfig_def collaboratorsOk_def fullConfig_def serverFlags_def
        deref_def hexDecodeOk_def makeBackupConfig_def andThen_def S3BackupEnabled_def
        StringEmpty_def)
  have f: "(serverFlags False)\<lparr>inProduction := False\<rparr> = serverFlags False"
    by (simp add: serverFlags_def)
  show ?thesis
    using backup_only_in_production [of fullConfig "serverFlags False" "collaboratorsOk fullConfig"]
      s f by simp
qed

section \<open>Properties of sanitizeForFile\<close>

lemma rangeRunes_ascii: "list_all (\<lambda>b. b < 128) bs \<Longrightarrow> rangeRunes bs = bs"
  by (induction bs) simp_all

lemma sanitizeLoop_ascii:
  assumes "list_all (\<lambda>b. b < 128) cs" and "list_all slugByte res"
  shows "\<exists>out. sanitizeLoop cs prev res = Return out \<and> list_all slugByte out"
  using assms
proof (induction cs arbitrary: prev res)
  case Nil
  then show ?case by simp
next
  case (Cons c cs)
  let ?c1 = "if c = 32 \<or> c = 95 then 45 else c"
  have c: "c < 128" and cs: "list_all (\<lambda>b. b < 128) cs"
    using Cons.prems(1) by simp_all
  show ?case
  proof (cases "ContainsRune toRemove c \<or> ?c1 = prev")
    case True
    then have "sanitizeLoop (c # cs) prev res = sanitizeLoop cs prev res"
      by (auto simp: Let_def)
    then show ?thesis using Cons.IH [OF cs Cons.prems(2)] by simp
  next
    case False
    have e: "EncodeRune 3 ?c1 = Return [?c1]"
      using c by (simp add: EncodeRune_def)
    have g: "slugByte ?c1"
      using False c by (auto simp: slugByte_def ContainsRune_def toRemove_def)
    have "sanitizeLoop (c # cs) prev res = sanitizeLoop cs ?c1 (res @ [?c1])"
      using False e by (simp add: Let_def)
    moreover have "list_all slugByte (res @ [?c1])"
      using Cons.prems(2) g by simp
    ultimately show ?thesis using Cons.IH [OF cs] by simp
  qed
qed

lemma Trim_take_drop: "\<exists>k j. Trim s cutset = take k (drop j s)"
proof -
  let ?P = "\<lambda>b. b \<in> set cutset"
  have "rev (dropWhile ?P (rev xs)) = take (length xs - length (takeWhile ?P (rev xs))) xs" for xs :: "nat list"
    by (simp add: dropWhile_eq_drop rev_drop)
  then show ?thesis
    unfolding Trim_def by (metis dropWhile_eq_drop)
qed

lemma Trim_ends:
  assumes "Trim s cutset \<noteq> []"
  shows "hd (Trim s cutset) \<notin> set cutset \<and> last (Trim s cutset) \<notin> set cutset"
proof -
  let ?P = "\<lambda>b. b \<in> set cutset"
  define xs where "xs = dropWhile ?P s"
  define ys where "ys = dropWhile ?P (rev xs)"
  have t: "Trim s cutset = rev ys" by (simp add: Trim_def xs_def ys_def)
  with assms have ne: "ys \<noteq> []" by simp
  then have "\<not> ?P (hd ys)" unfolding ys_def by (rule hd_dropWhile)
  then have l: "last (Trim s cutset) \<notin> set cutset"
    using t ne by (simp add: last_rev)
  have "rev ys = take (length xs - length (takeWhile ?P (rev xs))) xs"
    by (simp add: ys_def dropWhile_eq_drop rev_drop)
  then obtain k where k: "rev ys = take k xs" by blast
  with ne have "xs \<noteq> []" "0 < k" by (auto intro: Nat.gr0I)
  then have "hd (rev ys) = hd xs" using k by simp
  moreover have "\<not> ?P (hd xs)" using \<open>xs \<noteq> []\<close> unfolding xs_def by (rule hd_dropWhile)
  ultimately show ?thesis using l t by simp
qed


lemma ToLower_ascii:
  assumes "list_all slugByte bs"
  shows "ToLower unicodeLower bs = map asciiLower bs"
proof -
  have "list_all (\<lambda>b. b < 0x80) bs"
    using assms by (induction bs) (simp_all add: slugByte_def)
  then show ?thesis by (simp add: ToLower_def)
qed

lemma asciiLower_slugByte:
  assumes "slugByte b"
  shows "slugByte (asciiLower b)"
    and "\<not> (65 \<le> asciiLower b \<and> asciiLower b \<le> 90)"
    and "asciiLower b = 45 \<longleftrightarrow> b = 45"
  using assms by (auto simp: slugByte_def toRemove_def asciiLower_def)

text \<open>
  On a title of ASCII characters \<open>sanitizeForFile\<close> returns, and what it returns has at
  most 32 bytes, none of them an upper case letter, a removed character, a space or an
  underscore, and no hyphen at either end.
\<close>

lemma sanitizeForFile_ascii:
  assumes "list_all (\<lambda>c. of_char c < (128 :: nat)) s"
  shows "\<exists>out. sanitizeForFile unicodeLower s = Return out \<and> length out \<le> 32 \<and>
           list_all (\<lambda>c. slugByte (of_char c) \<and>
                        \<not> (65 \<le> (of_char c :: nat) \<and> (of_char c :: nat) \<le> 90)) out \<and>
           (out = [] \<or> (hd out \<noteq> CHR ''-'' \<and> last out \<noteq> CHR ''-''))"
proof -
  have a: "list_all (\<lambda>b. b < 128) (map of_char s :: nat list)"
    using assms by (simp add: list_all_iff)
  obtain res where r: "sanitizeLoop (rangeRunes (map of_char s)) 0 [] = Return res"
    and g: "list_all slugByte res"
    using sanitizeLoop_ascii [OF a, of "[]" 0] by (auto simp: rangeRunes_ascii [OF a])
  define res1 where "res1 = (if 32 < length res then take 32 res else res)"
  define s1 where "s1 = Trim res1 [95, 45, 32]"
  define s2 where "s2 = map asciiLower s1"
  have g1: "list_all slugByte res1" and l1: "length res1 \<le> 32"
    using g by (auto simp: res1_def list_all_iff dest: in_set_takeD)
  obtain k j where kj: "s1 = take k (drop j res1)"
    using Trim_take_drop [of res1 "[95, 45, 32]"] by (auto simp: s1_def)
  have gs1: "list_all slugByte s1"
    using g1 unfolding kj list_all_iff by (meson in_set_dropD in_set_takeD)
  have ls1: "length s1 \<le> 32" using l1 by (simp add: kj)
  have "sanitizeForFile unicodeLower s = Return (map char_of (ToLower unicodeLower s1))"
    using r by (simp add: sanitizeForFile_def Let_def res1_def s1_def)
  then have out: "sanitizeForFile unicodeLower s = Return (map char_of s2)"
    unfolding ToLower_ascii [OF gs1] s2_def .
  have gs2: "list_all (\<lambda>b. slugByte b \<and> \<not> (65 \<le> b \<and> b \<le> 90)) s2"
    using gs1 asciiLower_slugByte(1,2) unfolding s2_def list_all_iff by auto
  have small: "b < 256" if "b \<in> set s2" for b
    using gs2 that by (auto simp: list_all_iff slugByte_def)
  have roundtrip: "of_char (char_of b) = b" if "b \<in> set s2" for b
    using small [OF that] by simp
  have p3: "list_all (\<lambda>c. slugByte (of_char c) \<and>
                          \<not> (65 \<le> (of_char c :: nat) \<and> (of_char c :: nat) \<le> 90))
              (map char_of s2)"
    using gs2 roundtrip by (simp add: list_all_iff)
  have ends: "hd (map char_of s2) \<noteq> CHR ''-'' \<and> last (map char_of s2) \<noteq> CHR ''-''"
    if ne: "s2 \<noteq> []"
  proof -
    have ne1: "s1 \<noteq> []" using ne by (simp add: s2_def)
    then have e1: "hd s1 \<noteq> 45 \<and> last s1 \<noteq> 45"
      using Trim_ends [of res1 "[95, 45, 32]"] by (simp add: s1_def)
    have "slugByte (hd s1)" "slugByte (last s1)"
      using gs1 ne1 by (simp_all add: list_all_iff)
    then have e2: "hd s2 \<noteq> 45 \<and> last s2 \<noteq> 45"
      using e1 ne1 asciiLower_slugByte(3) by (simp add: s2_def hd_map last_map)
    have "of_char (hd (map char_of s2)) = hd s2" "of_char (last (map char_of s2)) = last s2"
      using ne roundtrip by (simp_all add: hd_map last_map)
    then show ?thesis using e2 by auto
  qed
  show ?thesis
    using out p3 ends ls1 by (intro exI [of _ "map char_of s2"]) (auto simp: s2_def)
qed

text \<open>
  C10. The property: for every input string \<open>sanitizeForFile\<close> returns a string of at most
  32 bytes with no upper case ASCII letter, none of the removed characters, no space or
  underscore, and no hyphen at either end. The buffer handed to \<open>utf8.EncodeRune\<close> has
  three bytes, so on a title with a code point above U+FFFF (here U+1F600, the bytes
  F0 9F 98 80, after the letter a) the function does not return: it panics with an index
  out of range.
\<close>

theorem sanitizeForFile_panics:
  "sanitizeForFile unicodeLower [CHR ''a'', CHR 0xF0, CHR 0x9F, CHR 0x98, CHR 0x80]
     = Panic ''index out of range''"
  by (simp add: sanitizeForFile_def cont_def ContainsRune_def toRemove_def EncodeRune_def)

section \<open>Properties of the edit handler\<close>

lemma TrimLeftSpace_drop: "\<exists>k. TrimLeftSpace s = drop k s"
proof (induction s rule: TrimLeftSpace.induct)
  case 1
  then show ?case by simp
next
  case (2 c cs)
  obtain r w where d: "decodeRune (map of_char (c # cs)) = (r, w)"
    by (cases "decodeRune (map of_char (c # cs))")
  show ?case
  proof (cases "IsSpace r")
    case True
    with 2 d obtain k where "TrimLeftSpace (drop (w - 1) cs) = drop k (drop (w - 1) cs)"
      by auto
    then have "TrimLeftSpace (c # cs) = drop (Suc (k + (w - 1))) (c # cs)"
      using d True by simp
    then show ?thesis by blast
  next
    case False
    then have "TrimLeftSpace (c # cs) = drop 0 (c # cs)"
      using d by simp
    then show ?thesis by blast
  qed
qed

lemma TrimRightSpace_length: "length (TrimRightSpace s) \<le> length s"
  by (simp add: TrimRightSpace_def split: option.splits)

lemma TrimSpace_length: "length (TrimSpace s) \<le> length s"
proof -
  obtain k where "TrimLeftSpace s = drop k s"
    using TrimLeftSpace_drop by blast
  then have "length (TrimLeftSpace s) \<le> length s" by simp
  with TrimRightSpace_length [of "TrimLeftSpace s"] show ?thesis
    by (simp add: TrimSpace_def)
qed

lemma formatNameToId_valid:
  "validFormat (formatNameToId name) \<longleftrightarrow> name \<in> {''html'', ''textile'', ''markdown'', ''text''}"
  by (simp add: validFormat_def formatNameToId_def)

lemma emit_simps [simp]:
  "heap (emit ev w) = heap w" "env (emit ev w) = env w" "events (emit ev w) = events w @ [ev]"
  by (simp_all add: emit_def)

lemma store_CreateNewText_events:
  "events (snd (store_CreateNewText sv fmt body w)) = events w @ [CreateNewTextCall fmt body]"
  by (simp add: store_CreateNewText_def split: prod.splits)

lemma logger_Errorf_simps [simp]:
  "heap (logger_Errorf sv msg w) = heap w"
  "events (logger_Errorf sv msg w) = events w @ [ErrorfCall msg]"
  "env (logger_Errorf sv msg w) = Errorf sv (env w) msg"
  by (simp_all add: logger_Errorf_def)

lemma serveErrorMsg_simps [simp]:
  "heap (serveErrorMsg msg w) = heap w"
  "events (serveErrorMsg msg w) = events w @ [ServeErrorMsg msg]"
  "env (serveErrorMsg msg w) = env w"
  by (simp_all add: serveErrorMsg_def)

lemma http_Redirect_simps [simp]:
  "heap (http_Redirect url code w) = heap w"
  "events (http_Redirect url code w) = events w @ [Redirect url code]"
  "env (http_Redirect url code w) = env w"
  by (simp_all add: http_Redirect_def)

lemma call_clearArticlesCache_simps [simp]:
  "heap (call_clearArticlesCache sv w) = heap w"
  "events (call_clearArticlesCache sv w) = events w @ [ClearArticlesCacheCall]"
  "env (call_clearArticlesCache sv w) = clearArticlesCache sv (env w)"
  by (simp_all add: call_clearArticlesCache_def)

lemma assign_simps [simp]:
  "heap (assign p f w) = (heap w)[p := f (heap w ! p)]"
  "events (assign p f w) = events w"
  "env (assign p f w) = env w"
  by (simp_all add: assign_def)

lemma time_Now_simps [simp]:
  "heap (snd (time_Now sv w)) = heap w"
  "events (snd (time_Now sv w)) = events w"
  "env (snd (time_Now sv w)) = snd (Now sv (env w))"
  "fst (time_Now sv w) = fst (Now sv (env w))"
  by (simp_all add: time_Now_def split: prod.splits)

lemma store_CreateOrUpdateArticle_events:
  "events (snd (store_CreateOrUpdateArticle sv p w)) = events w @ [CreateOrUpdateArticleCall p]"
  by (simp add: store_CreateOrUpdateArticle_def split: prod.splits sum.splits)

text \<open>Every step of the second half of the handler only adds events.\<close>

lemma updateAndStore_events:
  "\<exists>rest. events (updateAndStore sv r article title isPrivate tags text w1) = events w1 @ rest"
proof -
  obtain p w2 where a: "(case article of None \<Rightarrow> newArticle sv w1 | Some p \<Rightarrow> (p, w1)) = (p, w2)"
    by (cases "case article of None \<Rightarrow> newArticle sv w1 | Some p \<Rightarrow> (p, w1)")
  have e2: "events w2 = events w1"
    using a by (auto simp: newArticle_def time_Now_def split: option.splits prod.splits)
  define w5 where "w5 =
    assign p (\<lambda>a. a\<lparr>Title := title, IsPrivate := isPrivate, IsDeleted := False, Tags := tags\<rparr>)
      (if checkboxToBool (getTrimmedFormValue r ''update_published_on'')
       then (case time_Now sv (assign p (\<lambda>a. a\<lparr>Versions := Versions a @ [text]\<rparr>) w2) of
               (t, w) \<Rightarrow> assign p (\<lambda>a. a\<lparr>PublishedOn := t\<rparr>) w)
       else assign p (\<lambda>a. a\<lparr>Versions := Versions a @ [text]\<rparr>) w2)"
  have e5: "events w5 = events w1"
    using e2 by (simp add: w5_def time_Now_def split: prod.splits)
  obtain res w6 where s: "store_CreateOrUpdateArticle sv p w5 = (res, w6)"
    by (cases "store_CreateOrUpdateArticle sv p w5")
  have e6: "events w6 = events w1 @ [CreateOrUpdateArticleCall p]"
    using store_CreateOrUpdateArticle_events [of sv p w5] s e5 by simp
  have u: "updateAndStore sv r article title isPrivate tags text w1 =
           (case res of
              Inl err \<Rightarrow> serveErrorMsg ''error creating article''
                 (logger_Errorf sv
                    (''createNewOrUpdatePost(): store.CreateNewArticle() failed with '' @ err) w6)
            | Inr p1 \<Rightarrow> http_Redirect (''/'' @ Permalink sv (heap (call_clearArticlesCache sv w6) ! p1)) 301
                          (call_clearArticlesCache sv w6))"
    using a s by (simp add: updateAndStore_def Let_def w5_def split: sum.splits)
  show ?thesis
    unfolding u using e6 by (cases res) simp_all
qed

lemma updateAndStore_existing:
  fixes w1 :: "('e, 't) world" and sv :: "('e, 't) services" and r :: Request and tx :: 't
    and title :: string and isPrivate :: bool and tags :: "string list" and p :: nat
  assumes p: "p < length (heap w1)"
  defines "upd \<equiv> checkboxToBool (getTrimmedFormValue r ''update_published_on'')"
  defines "a1 \<equiv> editedArticle (heap w1 ! p) tx
                   (if upd then Some (fst (Now sv (env w1))) else None) title isPrivate tags"
  defines "e \<equiv> (if upd then snd (Now sv (env w1)) else env w1)"
  defines "w' \<equiv> updateAndStore sv r (Some p) title isPrivate tags tx w1"
  shows "(case CreateOrUpdateArticle sv e a1 of
           (Inl err, e') \<Rightarrow>
             heap w' = (heap w1)[p := a1] \<and>
             env w' = Errorf sv e'
               (''createNewOrUpdatePost(): store.CreateNewArticle() failed with '' @ err) \<and>
             events w' = events w1 @
               [CreateOrUpdateArticleCall p,
                ErrorfCall (''createNewOrUpdatePost(): store.CreateNewArticle() failed with '' @ err),
                ServeErrorMsg ''error creating article'']
         | (Inr newId, e') \<Rightarrow>
             heap w' = (heap w1)[p := a1\<lparr>Id := newId\<rparr>] \<and>
             env w' = clearArticlesCache sv e' \<and>
             events w' = events w1 @
               [CreateOrUpdateArticleCall p, ClearArticlesCacheCall,
                Redirect (''/'' @ Permalink sv (a1\<lparr>Id := newId\<rparr>)) 301])"
proof -
  define w5 where "w5 =
    assign p (\<lambda>a. a\<lparr>Title := title, IsPrivate := isPrivate, IsDeleted := False, Tags := tags\<rparr>)
      (if upd
       then (case time_Now sv (assign p (\<lambda>a. a\<lparr>Versions := Versions a @ [tx]\<rparr>) w1) of
               (t, w) \<Rightarrow> assign p (\<lambda>a. a\<lparr>PublishedOn := t\<rparr>) w)
       else assign p (\<lambda>a. a\<lparr>Versions := Versions a @ [tx]\<rparr>) w1)"
  have h5: "heap w5 = (heap w1)[p := a1]"
    using p by (cases upd) (simp_all add: w5_def a1_def editedArticle_def time_Now_def
        split: prod.splits)
  have e5: "env w5 = e"
    by (cases upd) (simp_all add: w5_def e_def time_Now_def split: prod.splits)
  have v5: "events w5 = events w1"
    by (cases upd) (simp_all add: w5_def time_Now_def split: prod.splits)
  have u: "w' = (case store_CreateOrUpdateArticle sv p w5 of
             (Inl err, w6) \<Rightarrow>
               serveErrorMsg ''error creating article''
                 (logger_Errorf sv
                    (''createNewOrUpdatePost(): store.CreateNewArticle() failed with '' @ err) w6)
           | (Inr p1, w6) \<Rightarrow>
               http_Redirect (''/'' @ Permalink sv (heap (call_clearArticlesCache sv w6) ! p1)) 301
                 (call_clearArticlesCache sv w6))"
    by (simp add: w'_def updateAndStore_def Let_def w5_def upd_def split: prod.splits sum.splits)
  obtain res e' where c: "CreateOrUpdateArticle sv e a1 = (res, e')"
    by (cases "CreateOrUpdateArticle sv e a1")
  have a5: "heap w5 ! p = a1" using h5 p by simp
  show ?thesis
  proof (cases res)
    case (Inl err)
    then show ?thesis
      unfolding u using c h5 e5 v5 a5 by (simp add: store_CreateOrUpdateArticle_def)
  next
    case (Inr newId)
    then show ?thesis
      unfolding u using c h5 e5 v5 a5 p by (simp add: store_CreateOrUpdateArticle_def)
  qed
qed


lemma createNewOrUpdatePost_valid:
  fixes w :: "('e, 't) world" and sv :: "('e, 't) services" and r :: Request
  defines "fmt \<equiv> formatNameToId (getTrimmedFormValue r ''format'')"
  defines "body \<equiv> getTrimmedFormValue r ''note''"
  assumes "validFormat fmt" and "getTrimmedFormValue r ''title'' \<noteq> []" and "10 \<le> length body"
  shows "createNewOrUpdatePost sv r article w =
     (case CreateNewText sv (env w) fmt body of
        (Inl err, e1) \<Rightarrow>
          \<lparr>heap = heap w,
           env = Errorf sv e1 (''createNewOrUpdatePost(): store.CreateNewText() failed with '' @ err),
           events = events w @
             [CreateNewTextCall fmt body,
              ErrorfCall (''createNewOrUpdatePost(): store.CreateNewText() failed with '' @ err),
              ServeErrorMsg ''error creating text'']\<rparr>
      | (Inr tx, e1) \<Rightarrow>
          updateAndStore sv r article (getTrimmedFormValue r ''title'')
            (checkboxToBool (getTrimmedFormValue r ''private_checkbox''))
            (tagsFromString (getTrimmedFormValue r ''tags'')) tx
            \<lparr>heap = heap w, env = e1, events = events w @ [CreateNewTextCall fmt body]\<rparr>)"
proof -
  obtain res e1 where c: "CreateNewText sv (env w) fmt body = (res, e1)"
    by (cases "CreateNewText sv (env w) fmt body")
  have s: "store_CreateNewText sv fmt body w =
        (res, \<lparr>heap = heap w, env = e1, events = events w @ [CreateNewTextCall fmt body]\<rparr>)"
    using c by (simp add: store_CreateNewText_def emit_def)
  have n: "\<not> length body < 10" using assms by simp
  show ?thesis
  proof (cases res)
    case (Inl err)
    then show ?thesis
      using assms(3,4) n s c
      by (simp add: createNewOrUpdatePost_def Let_def fmt_def [symmetric] body_def [symmetric]
          serveErrorMsg_def logger_Errorf_def emit_def)
  next
    case (Inr tx)
    then show ?thesis
      using assms(3,4) n s c
      by (simp add: createNewOrUpdatePost_def Let_def fmt_def [symmetric] body_def [symmetric])
  qed
qed

lemma updateAndStore_None:
  "updateAndStore sv r None title isPrivate tags tx w1 =
   updateAndStore sv r (Some (length (heap w1))) title isPrivate tags tx
     (w1\<lparr>env := snd (Now sv (env w1)),
         heap := heap w1 @ [freshArticle (fst (Now sv (env w1)))]\<rparr>)"
  by (simp add: updateAndStore_def newArticle_def time_Now_def Let_def split: prod.splits
      cong: if_cong)

lemmas request_eval = getTrimmedFormValue_def FormValue_def editRequest_def TrimSpace_def
  TrimRightSpace_def IsSpace_def DecodeLastRune_def

lemmas handler_eval = createNewOrUpdatePost_def updateAndStore_def request_eval freshArticle_def
  formatNameToId_def validFormat_def serveErrorMsg_def emit_def world1_def site1_def article1_def
  store_CreateNewText_def siteServices_def put_def nextFault_def checkboxToBool_def
  tagsFromString_def assign_def store_CreateOrUpdateArticle_def persist_def logger_Errorf_def
  call_clearArticlesCache_def invalidate_def rebuild_def http_Redirect_def titleLink_def
  time_Now_def newArticle_def findUniqueArticleId_def wrap64_def

text \<open>
  C1. \<open>createNewOrUpdatePost\<close> checks its three preconditions before it touches
  anything. The values it checks are the form values with surrounding white space
  removed. If the format is not one of \<open>html\<close>, \<open>textile\<close>, \<open>markdown\<close>, \<open>text\<close>, or the
  title is empty, or the body has fewer than 10 bytes (a body that is shorter than 10
  bytes before trimming is so afterwards too), the call answers with one of the three
  validation messages and does nothing else: the article objects and the state of the
  store are as before, and no call to \<open>CreateNewText\<close> is made. With a recognised format, a
  title and a body of exactly 10 bytes the call passes the checks: the next thing it does
  is to call \<open>CreateNewText\<close> with that format and body.
\<close>

theorem createNewOrUpdatePost_validation:
  "(getTrimmedFormValue r ''format'' \<notin> {''html'', ''textile'', ''markdown'', ''text''} \<or>
    getTrimmedFormValue r ''title'' = [] \<or>
    length (getTrimmedFormValue r ''note'') < 10 \<or>
    length (FormValue r ''note'') < 10
    \<longrightarrow> heap (createNewOrUpdatePost sv r article w) = heap w \<and>
        env (createNewOrUpdatePost sv r article w) = env w \<and>
        (\<exists>msg. msg \<in> {''invalid format'', ''empty title not valid'', ''body too small''} \<and>
           events (createNewOrUpdatePost sv r article w) = events w @ [ServeErrorMsg msg])) \<and>
   (getTrimmedFormValue r ''format'' \<in> {''html'', ''textile'', ''markdown'', ''text''} \<and>
    getTrimmedFormValue r ''title'' \<noteq> [] \<and>
    length (getTrimmedFormValue r ''note'') = 10
    \<longrightarrow> (\<exists>rest. events (createNewOrUpdatePost sv r article w) =
          events w @ CreateNewTextCall (formatNameToId (getTrimmedFormValue r ''format''))
                       (getTrimmedFormValue r ''note'') # rest))"
proof (intro conjI impI)
  assume bad: "getTrimmedFormValue r ''format'' \<notin> {''html'', ''textile'', ''markdown'', ''text''} \<or>
    getTrimmedFormValue r ''title'' = [] \<or>
    length (getTrimmedFormValue r ''note'') < 10 \<or>
    length (FormValue r ''note'') < 10"
  have short: "length (getTrimmedFormValue r ''note'') < 10" if "length (FormValue r ''note'') < 10"
    using that TrimSpace_length [of "FormValue r ''note''"] by (simp add: getTrimmedFormValue_def)
  from bad short have c: "\<not> validFormat (formatNameToId (getTrimmedFormValue r ''format'')) \<or>
      getTrimmedFormValue r ''title'' = [] \<or> length (getTrimmedFormValue r ''note'') < 10"
    unfolding formatNameToId_valid by blast
  have "createNewOrUpdatePost sv r article w = serveErrorMsg ''invalid format'' w \<or>
        createNewOrUpdatePost sv r article w = serveErrorMsg ''empty title not valid'' w \<or>
        createNewOrUpdatePost sv r article w = serveErrorMsg ''body too small'' w"
  proof (cases "validFormat (formatNameToId (getTrimmedFormValue r ''format''))")
    case False
    then show ?thesis by (simp add: createNewOrUpdatePost_def)
  next
    case v: True
    show ?thesis
    proof (cases "getTrimmedFormValue r ''title'' = []")
      case True
      with v show ?thesis by (simp add: createNewOrUpdatePost_def)
    next
      case False
      with v c show ?thesis by (simp add: createNewOrUpdatePost_def)
    qed
  qed
  then obtain msg where m: "msg \<in> {''invalid format'', ''empty title not valid'', ''body too small''}"
    and eq: "createNewOrUpdatePost sv r article w = serveErrorMsg msg w"
    by blast
  show "heap (createNewOrUpdatePost sv r article w) = heap w"
    and "env (createNewOrUpdatePost sv r article w) = env w"
    by (simp_all add: eq)
  show "\<exists>msg. msg \<in> {''invalid format'', ''empty title not valid'', ''body too small''} \<and>
           events (createNewOrUpdatePost sv r article w) = events w @ [ServeErrorMsg msg]"
    using m eq by (intro exI [of _ msg]) simp
next
  assume ok: "getTrimmedFormValue r ''format'' \<in> {''html'', ''textile'', ''markdown'', ''text''} \<and>
    getTrimmedFormValue r ''title'' \<noteq> [] \<and>
    length (getTrimmedFormValue r ''note'') = 10"
  define fmt where "fmt = formatNameToId (getTrimmedFormValue r ''format'')"
  define body where "body = getTrimmedFormValue r ''note''"
  have v: "validFormat fmt"
    using ok unfolding fmt_def formatNameToId_valid by blast
  obtain res w1 where s: "store_CreateNewText sv fmt body w = (res, w1)"
    by (cases "store_CreateNewText sv fmt body w")
  have e1: "events w1 = events w @ [CreateNewTextCall fmt body]"
    using store_CreateNewText_events [of sv fmt body w] s by simp
  have u: "createNewOrUpdatePost sv r article w =
        (case res of
           Inl err \<Rightarrow> serveErrorMsg ''error creating text''
                   (logger_Errorf sv
                      (''createNewOrUpdatePost(): store.CreateNewText() failed with '' @ err) w1)
         | Inr text \<Rightarrow> updateAndStore sv r article (getTrimmedFormValue r ''title'')
              (checkboxToBool (getTrimmedFormValue r ''private_checkbox''))
              (tagsFromString (getTrimmedFormValue r ''tags'')) text w1)"
    using ok v s by (simp add: createNewOrUpdatePost_def Let_def fmt_def [symmetric]
        body_def [symmetric] split: sum.splits)
  show "\<exists>rest. events (createNewOrUpdatePost sv r article w) =
          events w @ CreateNewTextCall (formatNameToId (getTrimmedFormValue r ''format''))
                       (getTrimmedFormValue r ''note'') # rest"
  proof (cases res)
    case (Inl err)
    then show ?thesis unfolding u using e1 by (simp add: fmt_def body_def)
  next
    case (Inr tx)
    obtain rest where "events (updateAndStore sv r article (getTrimmedFormValue r ''title'')
              (checkboxToBool (getTrimmedFormValue r ''private_checkbox''))
              (tagsFromString (getTrimmedFormValue r ''tags'')) tx w1) = events w1 @ rest"
      by (rule exE [OF updateAndStore_events])
    then show ?thesis unfolding u using e1 Inr by (simp add: fmt_def body_def)
  qed
qed


theorem createNewOrUpdatePost_validation_witness:
  "getTrimmedFormValue (editRequest ''pdf'' ''New title'' ''0123456789'') ''format''
     \<notin> {''html'', ''textile'', ''markdown'', ''text''} \<and>
   events (createNewOrUpdatePost (siteServices titleLink)
             (editRequest ''pdf'' ''New title'' ''0123456789'') (Some 0) (world1 []))
     = [ServeErrorMsg ''invalid format''] \<and>
   blobs (env (createNewOrUpdatePost (siteServices titleLink)
             (editRequest ''pdf'' ''New title'' ''0123456789'') (Some 0) (world1 [])))
     = blobs (site1 []) \<and>
   length (getTrimmedFormValue (editRequest ''text'' ''New title'' ''  123456789 '') ''note'') < 10 \<and>
   events (createNewOrUpdatePost (siteServices titleLink)
             (editRequest ''text'' ''New title'' ''  123456789 '') (Some 0) (world1 []))
     = [ServeErrorMsg ''body too small''] \<and>
   length (getTrimmedFormValue (editRequest ''text'' ''New title'' '' 0123456789 '') ''note'') = 10 \<and>
   hd (events (createNewOrUpdatePost (siteServices titleLink)
             (editRequest ''text'' ''New title'' '' 0123456789 '') (Some 0) (world1 [])))
     = CreateNewTextCall FormatText ''0123456789''"
proof -
  let ?sv = "siteServices titleLink"
  let ?bad = "editRequest ''pdf'' ''New title'' ''0123456789''"
  let ?short = "editRequest ''text'' ''New title'' ''  123456789 ''"
  let ?ok = "editRequest ''text'' ''New title'' '' 0123456789 ''"
  have f: "getTrimmedFormValue ?bad ''format'' = ''pdf''"
    by (simp add: request_eval)
  have n9: "getTrimmedFormValue ?short ''note'' = ''123456789''"
    by (simp add: request_eval)
  have n10: "getTrimmedFormValue ?ok ''note'' = ''0123456789''"
    and t: "getTrimmedFormValue ?ok ''title'' = ''New title''"
    and g: "getTrimmedFormValue ?ok ''format'' = ''text''"
    by (simp_all add: request_eval)
  have e0: "events (world1 []) = []" and b0: "env (world1 []) = site1 []"
    by (simp_all add: world1_def)
  note v = createNewOrUpdatePost_validation
  from v [of ?bad ?sv "Some 0" "world1 []"] f e0 b0
  have 1: "env (createNewOrUpdatePost ?sv ?bad (Some 0) (world1 [])) = site1 []"
    by simp
  have 2: "events (createNewOrUpdatePost ?sv ?bad (Some 0) (world1 [])) = [ServeErrorMsg ''invalid format'']"
    by (simp add: createNewOrUpdatePost_def f formatNameToId_def validFormat_def serveErrorMsg_def
        emit_def e0)
  have 3: "events (createNewOrUpdatePost ?sv ?short (Some 0) (world1 [])) = [ServeErrorMsg ''body too small'']"
    by (simp add: handler_eval)
  from v [of ?ok ?sv "Some 0" "world1 []"] n10 t g e0
  have 4: "hd (events (createNewOrUpdatePost ?sv ?ok (Some 0) (world1 []))) =
           CreateNewTextCall FormatText ''0123456789''"
    by (auto simp: formatNameToId_def)
  show ?thesis
    using f 1 2 3 4 n9 n10 by simp
qed

lemma createNewOrUpdatePost_stored_form:
  fixes w :: "('e, 't) world" and sv :: "('e, 't) services" and r :: Request
  defines "fmt \<equiv> formatNameToId (getTrimmedFormValue r ''format'')"
  defines "body \<equiv> getTrimmedFormValue r ''note''"
  assumes "validFormat fmt" and "getTrimmedFormValue r ''title'' \<noteq> []" and "10 \<le> length body"
    and "CreateNewText sv (env w) fmt body = (Inr tx, e1)"
  shows "createNewOrUpdatePost sv r article w =
          updateAndStore sv r (Some (target article w)) (getTrimmedFormValue r ''title'')
            (checkboxToBool (getTrimmedFormValue r ''private_checkbox''))
            (tagsFromString (getTrimmedFormValue r ''tags'')) tx
            (afterText sv article fmt body e1 w)"
proof -
  have "createNewOrUpdatePost sv r article w =
          updateAndStore sv r article (getTrimmedFormValue r ''title'')
            (checkboxToBool (getTrimmedFormValue r ''private_checkbox''))
            (tagsFromString (getTrimmedFormValue r ''tags'')) tx
            \<lparr>heap = heap w, env = e1, events = events w @ [CreateNewTextCall fmt body]\<rparr>"
    using createNewOrUpdatePost_valid [of r sv article w] assms(3-6)
    by (simp add: fmt_def body_def)
  then show ?thesis
    by (cases article)
      (simp_all add: updateAndStore_None afterText_def target_def)
qed

lemma target_afterText:
  "validPointer article w \<Longrightarrow>
   target article w < length (heap (afterText sv article fmt body e1 w))"
  by (cases article) (simp_all add: validPointer_def target_def afterText_def)


lemma createNewOrUpdatePost_outcomes:
  fixes w :: "('e, 't) world" and sv :: "('e, 't) services" and r :: Request
    and article :: "nat option"
  defines "fmt \<equiv> formatNameToId (getTrimmedFormValue r ''format'')"
  defines "body \<equiv> getTrimmedFormValue r ''note''"
  defines "p \<equiv> target article w"
  defines "w' \<equiv> createNewOrUpdatePost sv r article w"
  assumes vp: "validPointer article w"
  obtains
    (rejected) msg where
      "msg \<in> {''invalid format'', ''empty title not valid'', ''body too small''}"
      "w' = serveErrorMsg msg w"
      "\<not> (validFormat fmt \<and> getTrimmedFormValue r ''title'' \<noteq> [] \<and> 10 \<le> length body)"
  | (text_failed) err e1 where
      "validFormat fmt" "getTrimmedFormValue r ''title'' \<noteq> []" "10 \<le> length body"
      "CreateNewText sv (env w) fmt body = (Inl err, e1)"
      "heap w' = heap w"
      "env w' = Errorf sv e1 (''createNewOrUpdatePost(): store.CreateNewText() failed with '' @ err)"
      "events w' = events w @
         [CreateNewTextCall fmt body,
          ErrorfCall (''createNewOrUpdatePost(): store.CreateNewText() failed with '' @ err),
          ServeErrorMsg ''error creating text'']"
  | (article_failed) tx e1 err e2 where
      "validFormat fmt" "getTrimmedFormValue r ''title'' \<noteq> []" "10 \<le> length body"
      "CreateNewText sv (env w) fmt body = (Inr tx, e1)"
      "CreateOrUpdateArticle sv (envAtStore sv r article e1 w) (handedOver sv r article tx e1 w)
         = (Inl err, e2)"
      "heap w' = (heap (afterText sv article fmt body e1 w))[p := handedOver sv r article tx e1 w]"
      "env w' = Errorf sv e2 (''createNewOrUpdatePost(): store.CreateNewArticle() failed with '' @ err)"
      "events w' = events w @
         [CreateNewTextCall fmt body, CreateOrUpdateArticleCall p,
          ErrorfCall (''createNewOrUpdatePost(): store.CreateNewArticle() failed with '' @ err),
          ServeErrorMsg ''error creating article'']"
  | (stored) tx e1 newId e2 where
      "validFormat fmt" "getTrimmedFormValue r ''title'' \<noteq> []" "10 \<le> length body"
      "CreateNewText sv (env w) fmt body = (Inr tx, e1)"
      "CreateOrUpdateArticle sv (envAtStore sv r article e1 w) (handedOver sv r article tx e1 w)
         = (Inr newId, e2)"
      "heap w' = (heap (afterText sv article fmt body e1 w))
                   [p := (handedOver sv r article tx e1 w)\<lparr>Id := newId\<rparr>]"
      "env w' = clearArticlesCache sv e2"
      "events w' = events w @
         [CreateNewTextCall fmt body, CreateOrUpdateArticleCall p, ClearArticlesCacheCall,
          Redirect (''/'' @ Permalink sv ((handedOver sv r article tx e1 w)\<lparr>Id := newId\<rparr>)) 301]"
proof (cases "validFormat fmt \<and> getTrimmedFormValue r ''title'' \<noteq> [] \<and> 10 \<le> length body")
  case False
  have "w' = serveErrorMsg ''invalid format'' w \<or>
        w' = serveErrorMsg ''empty title not valid'' w \<or>
        w' = serveErrorMsg ''body too small'' w"
  proof (cases "validFormat fmt")
    case False
    then show ?thesis by (simp add: w'_def createNewOrUpdatePost_def fmt_def)
  next
    case v: True
    show ?thesis
    proof (cases "getTrimmedFormValue r ''title'' = []")
      case True
      with v show ?thesis by (simp add: w'_def createNewOrUpdatePost_def fmt_def)
    next
      case t: False
      with v False have "length body < 10" by simp
      with v t show ?thesis by (simp add: w'_def createNewOrUpdatePost_def fmt_def body_def)
    qed
  qed
  then obtain msg where "msg \<in> {''invalid format'', ''empty title not valid'', ''body too small''}"
    and "w' = serveErrorMsg msg w"
    by blast
  then show ?thesis using False by (rule rejected)
next
  case True
  then have v: "validFormat fmt" "getTrimmedFormValue r ''title'' \<noteq> []" "10 \<le> length body"
    by simp_all
  obtain res e1 where c: "CreateNewText sv (env w) fmt body = (res, e1)"
    by (cases "CreateNewText sv (env w) fmt body")
  show ?thesis
  proof (cases res)
    case (Inl err)
    have "w' = \<lparr>heap = heap w,
           env = Errorf sv e1 (''createNewOrUpdatePost(): store.CreateNewText() failed with '' @ err),
           events = events w @
             [CreateNewTextCall fmt body,
              ErrorfCall (''createNewOrUpdatePost(): store.CreateNewText() failed with '' @ err),
              ServeErrorMsg ''error creating text'']\<rparr>"
      using createNewOrUpdatePost_valid [of r sv article w] v c Inl
      by (simp add: w'_def fmt_def body_def)
    then show ?thesis
      using v c Inl by (intro text_failed [of err e1]) simp_all
  next
    case (Inr tx)
    define w1 where "w1 = afterText sv article fmt body e1 w"
    have f: "w' = updateAndStore sv r (Some p) (getTrimmedFormValue r ''title'')
            (checkboxToBool (getTrimmedFormValue r ''private_checkbox''))
            (tagsFromString (getTrimmedFormValue r ''tags'')) tx w1"
      using createNewOrUpdatePost_stored_form [where sv=sv and r=r and w=w and tx=tx and ?e1.0=e1 and article=article] v c Inr
      by (simp add: w'_def fmt_def body_def p_def w1_def)
    have pl: "p < length (heap w1)"
      using target_afterText [OF vp] by (simp add: p_def w1_def)
    have ev: "events w1 = events w @ [CreateNewTextCall fmt body]"
      by (cases article) (simp_all add: w1_def afterText_def)
    have a: "handedOver sv r article tx e1 w =
             editedArticle (heap w1 ! p) tx
               (if checkboxToBool (getTrimmedFormValue r ''update_published_on'')
                then Some (fst (Now sv (env w1))) else None)
               (getTrimmedFormValue r ''title'')
               (checkboxToBool (getTrimmedFormValue r ''private_checkbox''))
               (tagsFromString (getTrimmedFormValue r ''tags''))"
      by (simp add: handedOver_def Let_def w1_def fmt_def body_def p_def)
    have e: "envAtStore sv r article e1 w =
             (if checkboxToBool (getTrimmedFormValue r ''update_published_on'')
              then snd (Now sv (env w1)) else env w1)"
      by (simp add: envAtStore_def Let_def w1_def fmt_def body_def)
    note u = updateAndStore_existing [OF pl, where sv=sv and r=r and tx=tx
        and title="getTrimmedFormValue r ''title''"
        and isPrivate="checkboxToBool (getTrimmedFormValue r ''private_checkbox'')"
        and tags="tagsFromString (getTrimmedFormValue r ''tags'')", folded f a e]
    obtain res2 e2 where c2: "CreateOrUpdateArticle sv (envAtStore sv r article e1 w)
         (handedOver sv r article tx e1 w) = (res2, e2)"
      by (cases "CreateOrUpdateArticle sv (envAtStore sv r article e1 w)
         (handedOver sv r article tx e1 w)")
    show ?thesis
    proof (cases res2)
      case (Inl err)
      show ?thesis
        using u c2 Inl v c Inr ev
        by (intro article_failed [of tx e1 err e2]) (simp_all add: w1_def)
    next
      case (Inr newId)
      show ?thesis
        using u c2 Inr v c \<open>res = Inr tx\<close> ev
        by (intro stored [of tx e1 newId e2]) (simp_all add: w1_def)
    qed
  qed
qed


lemma succeeded_iff: "succeeded w \<longleftrightarrow> (\<exists>pre url code. events w = pre @ [Redirect url code])"
proof (cases "events w" rule: rev_cases)
  case Nil
  then show ?thesis by (simp add: succeeded_def)
next
  case (snoc pre ev)
  then show ?thesis by (cases ev) (simp_all add: succeeded_def)
qed

lemma not_succeeded_error [simp]: "events w = pre @ [ServeErrorMsg msg] \<Longrightarrow> \<not> succeeded w"
  by (simp add: succeeded_iff)

lemma handedOver_fields:
  "Versions (handedOver sv r article tx e1 w) =
     Versions (heap (afterText sv article (formatNameToId (getTrimmedFormValue r ''format''))
                 (getTrimmedFormValue r ''note'') e1 w) ! target article w) @ [tx]"
  "Title (handedOver sv r article tx e1 w) = getTrimmedFormValue r ''title''"
  "Tags (handedOver sv r article tx e1 w) = tagsFromString (getTrimmedFormValue r ''tags'')"
  "IsPrivate (handedOver sv r article tx e1 w) =
     checkboxToBool (getTrimmedFormValue r ''private_checkbox'')"
  "IsDeleted (handedOver sv r article tx e1 w) = False"
  by (simp_all add: handedOver_def editedArticle_def Let_def)

lemma afterText_Some [simp]:
  "heap (afterText sv (Some p) fmt body e1 w) = heap w"
  "env (afterText sv (Some p) fmt body e1 w) = e1"
  "target (Some p) w = p"
  "validPointer (Some p) w \<longleftrightarrow> p < length (heap w)"
  by (simp_all add: afterText_def target_def validPointer_def)

lemma handedOver_PublishedOn:
  "PublishedOn (handedOver sv r (Some p) tx e1 w) =
     (if checkboxToBool (getTrimmedFormValue r ''update_published_on'')
      then fst (Now sv e1) else PublishedOn (heap w ! p))"
  by (simp add: handedOver_def editedArticle_def Let_def)

lemma edit_step:
  fixes w :: "('e, 't) world"
  assumes p: "p < length (heap w)"
  shows "length (heap (createNewOrUpdatePost sv r (Some p) w)) = length (heap w)"
    and "succeeded (createNewOrUpdatePost sv r (Some p) w) \<Longrightarrow>
         \<exists>tx. Versions (heap (createNewOrUpdatePost sv r (Some p) w) ! p) =
                Versions (heap w ! p) @ [tx]"
proof -
  have vp: "validPointer (Some p) w" using p by simp
  show "length (heap (createNewOrUpdatePost sv r (Some p) w)) = length (heap w)"
    using vp by (cases rule: createNewOrUpdatePost_outcomes [where sv=sv and r=r]) simp_all
  assume s: "succeeded (createNewOrUpdatePost sv r (Some p) w)"
  from vp show "\<exists>tx. Versions (heap (createNewOrUpdatePost sv r (Some p) w) ! p) =
                Versions (heap w ! p) @ [tx]"
  proof (cases rule: createNewOrUpdatePost_outcomes [where sv=sv and r=r])
    case (rejected msg)
    then show ?thesis using s by simp
  next
    case (text_failed err e1)
    then show ?thesis using s by simp
  next
    case (article_failed tx e1 err e2)
    then show ?thesis using s by simp
  next
    case (stored tx e1 newId e2)
    then show ?thesis using p by (simp add: handedOver_fields)
  qed
qed

lemma put_Inr: "put st fmt body = (Inr tx, e1) \<Longrightarrow> tx = (fmt, body)"
  by (auto simp: put_def split: prod.splits bool.splits if_splits)

lemma persist_Inr:
  assumes "persist st a = (Inr newId, e2)"
  shows "\<exists>old. records e2 = filter (\<lambda>b. Id b \<noteq> newId) old @ [a\<lparr>Id := newId\<rparr>]"
  using assms by (auto simp: persist_def Let_def split: prod.splits bool.splits)

lemma find_last_record:
  assumes "Id y = i" and "\<not> IsDeleted y"
  shows "find (\<lambda>a. Id a = i) (filter (\<lambda>a. \<not> IsDeleted a) (filter (\<lambda>b. Id b \<noteq> i) old @ [y]))
         = Some y"
  using assms by (induction old) simp_all

lemma index_after_store:
  assumes "records e2 = filter (\<lambda>b. Id b \<noteq> Id y) old @ [y]" and "\<not> IsDeleted y"
  shows "getArticleById (invalidate e2) (Id y) = Some y"
    and "tag \<in> set (Tags y) \<Longrightarrow> y \<in> set (listByTag (invalidate e2) tag)"
  using assms find_last_record [OF refl assms(2), of old]
  by (simp_all add: getArticleById_def listByTag_def invalidate_def rebuild_def)

lemmas run_eval = handler_eval succeeded_def bumpRequest_def Let_def

text \<open>
  C3. Version history grows by appending. For an article and any sequence of calls of
  \<open>createNewOrUpdatePost\<close> on it that all succeed, the versions after the calls are the
  versions before them followed by one new entry per call: each call adds exactly one
  entry at the end, and the earlier entries stay in place. (The repository, which is not
  in these sources, is taken to leave the record's fields other than the id alone, as the
  spec has it.)
\<close>

theorem versions_append_only:
  fixes w :: "('e, 't) world"
  assumes "p < length (heap w)" and "allSucceeded sv p rs w"
  shows "\<exists>added. Versions (heap (edits sv p rs w) ! p) = Versions (heap w ! p) @ added \<and>
                 length added = length rs"
  using assms
proof (induction rs arbitrary: w)
  case Nil
  then show ?case by simp
next
  case (Cons r rs)
  let ?w = "createNewOrUpdatePost sv r (Some p) w"
  have l: "p < length (heap ?w)"
    using edit_step(1) [OF Cons.prems(1), of sv r] Cons.prems(1) by simp
  obtain tx where v: "Versions (heap ?w ! p) = Versions (heap w ! p) @ [tx]"
    using edit_step(2) [OF Cons.prems(1), of sv r] Cons.prems(2) by auto
  obtain added where a: "Versions (heap (edits sv p rs ?w) ! p) = Versions (heap ?w ! p) @ added"
    and n: "length added = length rs"
    using Cons.IH [OF l] Cons.prems(2) by auto
  have "Versions (heap (edits sv p (r # rs) w) ! p) = Versions (heap w ! p) @ (tx # added)"
    using a v by simp
  then show ?case using n by (intro exI [of _ "tx # added"]) simp
qed

theorem versions_append_only_witness:
  "0 < length (heap (world1 [])) \<and>
   allSucceeded (siteServices titleLink) 0
     [editRequest ''text'' ''New title'' ''a second body'',
      editRequest ''html'' ''Newer title'' ''the third body''] (world1 []) \<and>
   Versions (heap (edits (siteServices titleLink) 0
     [editRequest ''text'' ''New title'' ''a second body'',
      editRequest ''html'' ''Newer title'' ''the third body''] (world1 [])) ! 0) =
     Versions (heap (world1 []) ! 0) @
       [(FormatText, ''a second body''), (FormatHtml, ''the third body'')]"
proof -
  let ?sv = "siteServices titleLink"
  let ?rs = "[editRequest ''text'' ''New title'' ''a second body'',
      editRequest ''html'' ''Newer title'' ''the third body'']"
  have l: "0 < length (heap (world1 []))"
    by (simp add: world1_def)
  have a: "allSucceeded ?sv 0 ?rs (world1 [])"
    by (simp add: run_eval)
  have v: "Versions (heap (edits ?sv 0 ?rs (world1 [])) ! 0) =
     Versions (heap (world1 []) ! 0) @
       [(FormatText, ''a second body''), (FormatHtml, ''the third body'')]"
    by (simp add: run_eval)
  from versions_append_only [OF l a] l a v show ?thesis by simp
qed

text \<open>
  C4. Publish date stability. When the form field \<open>update_published_on\<close> is not \<open>on\<close>,
  a call on an existing article leaves \<open>PublishedOn\<close> as it was, whatever the outcome of
  the call, and a call that succeeds has added one version. When the field is \<open>on\<close> and
  the call succeeds, \<open>PublishedOn\<close> is the clock reading taken during the call, after
  the text has been created.
\<close>

theorem publish_date_stability:
  fixes w :: "('e, 't) world"
  assumes "p < length (heap w)"
  shows "(\<not> checkboxToBool (getTrimmedFormValue r ''update_published_on'') \<longrightarrow>
            PublishedOn (heap (createNewOrUpdatePost sv r (Some p) w) ! p) = PublishedOn (heap w ! p) \<and>
            (succeeded (createNewOrUpdatePost sv r (Some p) w) \<longrightarrow>
               length (Versions (heap (createNewOrUpdatePost sv r (Some p) w) ! p)) =
               Suc (length (Versions (heap w ! p))))) \<and>
         (checkboxToBool (getTrimmedFormValue r ''update_published_on'') \<and>
          succeeded (createNewOrUpdatePost sv r (Some p) w) \<longrightarrow>
            PublishedOn (heap (createNewOrUpdatePost sv r (Some p) w) ! p) =
              fst (Now sv (snd (CreateNewText sv (env w)
                     (formatNameToId (getTrimmedFormValue r ''format''))
                     (getTrimmedFormValue r ''note'')))))"
proof -
  have vp: "validPointer (Some p) w" using assms by simp
  let ?w = "createNewOrUpdatePost sv r (Some p) w"
  let ?upd = "checkboxToBool (getTrimmedFormValue r ''update_published_on'')"
  have same: "PublishedOn (heap ?w ! p) = PublishedOn (heap w ! p)" if "\<not> ?upd"
    using vp
  proof (cases rule: createNewOrUpdatePost_outcomes [where sv=sv and r=r])
    case (article_failed tx e1 err e2)
    then show ?thesis using that assms by (simp add: handedOver_PublishedOn)
  next
    case (stored tx e1 newId e2)
    then show ?thesis using that assms by (simp add: handedOver_PublishedOn)
  qed simp_all
  have grows: "length (Versions (heap ?w ! p)) = Suc (length (Versions (heap w ! p)))"
    if "succeeded ?w"
    using edit_step(2) [OF assms that] by auto
  have bumped: "PublishedOn (heap ?w ! p) =
              fst (Now sv (snd (CreateNewText sv (env w)
                     (formatNameToId (getTrimmedFormValue r ''format''))
                     (getTrimmedFormValue r ''note''))))"
    if "?upd" "succeeded ?w"
    using vp
  proof (cases rule: createNewOrUpdatePost_outcomes [where sv=sv and r=r])
    case (stored tx e1 newId e2)
    then show ?thesis using that assms by (simp add: handedOver_PublishedOn)
  qed (use that in simp_all)
  show ?thesis using same grows bumped by blast
qed

theorem publish_date_stability_witness:
  "0 < length (heap (world1 [])) \<and>
   \<not> checkboxToBool (getTrimmedFormValue (editRequest ''text'' ''New title'' ''a second body'')
        ''update_published_on'') \<and>
   PublishedOn (heap (createNewOrUpdatePost (siteServices titleLink)
     (editRequest ''text'' ''New title'' ''a second body'') (Some 0) (world1 [])) ! 0) = 100 \<and>
   length (Versions (heap (createNewOrUpdatePost (siteServices titleLink)
     (editRequest ''text'' ''New title'' ''a second body'') (Some 0) (world1 [])) ! 0)) = 2 \<and>
   checkboxToBool (getTrimmedFormValue (bumpRequest ''text'' ''New title'' ''a second body'')
        ''update_published_on'') \<and>
   succeeded (createNewOrUpdatePost (siteServices titleLink)
     (bumpRequest ''text'' ''New title'' ''a second body'') (Some 0) (world1 [])) \<and>
   PublishedOn (heap (createNewOrUpdatePost (siteServices titleLink)
     (bumpRequest ''text'' ''New title'' ''a second body'') (Some 0) (world1 [])) ! 0) = 500"
proof -
  let ?sv = "siteServices titleLink"
  let ?plain = "editRequest ''text'' ''New title'' ''a second body''"
  let ?bump = "bumpRequest ''text'' ''New title'' ''a second body''"
  have l: "0 < length (heap (world1 []))"
    by (simp add: world1_def)
  have off: "\<not> checkboxToBool (getTrimmedFormValue ?plain ''update_published_on'')"
    by (simp add: checkboxToBool_def request_eval)
  have on: "checkboxToBool (getTrimmedFormValue ?bump ''update_published_on'')"
    by (simp add: checkboxToBool_def request_eval bumpRequest_def)
  have s1: "succeeded (createNewOrUpdatePost ?sv ?plain (Some 0) (world1 []))"
    and s2: "succeeded (createNewOrUpdatePost ?sv ?bump (Some 0) (world1 []))"
    by (simp_all add: run_eval)
  have old: "PublishedOn (heap (world1 []) ! 0) = 100"
    and len: "length (Versions (heap (world1 []) ! 0)) = 1"
    by (simp_all add: world1_def article1_def)
  have now: "fst (Now ?sv (snd (CreateNewText ?sv (env (world1 []))
                     (formatNameToId (getTrimmedFormValue ?bump ''format''))
                     (getTrimmedFormValue ?bump ''note'')))) = 500"
    by (simp add: run_eval)
  from publish_date_stability [OF l, of ?plain ?sv] off s1 old len
  have a: "PublishedOn (heap (createNewOrUpdatePost ?sv ?plain (Some 0) (world1 [])) ! 0) = 100 \<and>
           length (Versions (heap (createNewOrUpdatePost ?sv ?plain (Some 0) (world1 [])) ! 0)) = 2"
    by simp
  from publish_date_stability [OF l, of ?bump ?sv] on s2 now
  have b: "PublishedOn (heap (createNewOrUpdatePost ?sv ?bump (Some 0) (world1 [])) ! 0) = 500"
    by simp
  show ?thesis using l off on s2 a b by simp
qed

text \<open>
  What the storage operations leave alone: neither \<open>put\<close> nor \<open>persist\<close> touches the index,
  \<open>put\<close> leaves the records alone, and \<open>persist\<close> changes them only when it succeeds.
\<close>

lemma nextFault_view:
  "records (snd (nextFault st)) = records st" "index (snd (nextFault st)) = index st"
  by (simp_all add: nextFault_def split: list.splits)

lemma put_view:
  assumes "put st fmt body = (res, e1)"
  shows "records e1 = records st \<and> index e1 = index st"
proof -
  obtain f st1 where n: "nextFault st = (f, st1)" by (cases "nextFault st")
  then have "records st1 = records st \<and> index st1 = index st"
    using nextFault_view [of st] by simp
  then show ?thesis
    using assms n by (cases f) (auto simp: put_def split: if_splits)
qed

lemma persist_view:
  assumes "persist st a = (res, e2)"
  shows "index e2 = index st"
    and "res = Inl err \<Longrightarrow> records e2 = records st"
    and "res = Inr newId \<Longrightarrow>
           records e2 = filter (\<lambda>b. Id b \<noteq> newId) (records st) @ [a\<lparr>Id := newId\<rparr>]"
proof -
  obtain f st1 where n: "nextFault st = (f, st1)" by (cases "nextFault st")
  then have v: "records st1 = records st \<and> index st1 = index st"
    using nextFault_view [of st] by simp
  show "index e2 = index st"
    using assms n v by (cases f) (auto simp: persist_def Let_def)
  show "res = Inl err \<Longrightarrow> records e2 = records st"
    using assms n v by (cases f) (auto simp: persist_def Let_def)
  show "res = Inr newId \<Longrightarrow>
           records e2 = filter (\<lambda>b. Id b \<noteq> newId) (records st) @ [a\<lparr>Id := newId\<rparr>]"
    using assms n v by (cases f) (auto simp: persist_def Let_def)
qed

lemma siteServices_simps [simp]:
  "CreateNewText (siteServices permalink) = put"
  "CreateOrUpdateArticle (siteServices permalink) = persist"
  "clearArticlesCache (siteServices permalink) = invalidate"
  "Errorf (siteServices permalink) st msg = st\<lparr>errorLog := errorLog st @ [msg]\<rparr>"
  "Now (siteServices permalink) st = (clock st, st\<lparr>clock := clock st + 1\<rparr>)"
  "Permalink (siteServices permalink) = permalink"
  by (simp_all add: siteServices_def)

lemma envAtStore_view:
  "records (envAtStore (siteServices permalink) r article e1 w) = records e1"
  "index (envAtStore (siteServices permalink) r article e1 w) = index e1"
  by (cases article; simp add: envAtStore_def afterText_def Let_def)+


lemma find_in_index:
  assumes "find (\<lambda>a. Id a = i) xs = Some b"
  shows "Id b = i \<and> b \<in> set xs"
  using assms by (induction xs) (auto split: if_splits)

text \<open>
  C5. Index consistency after a write, with the store and the index modelled from the
  spec. A call that succeeds has called \<open>clearArticlesCache\<close> after the repository
  accepted the article and before the redirect is written, and does nothing between the
  two. In the state it leaves, the persisted records are the former ones without the
  record of the article's id, followed by the article as the call left it (new title, the
  new text as last version, new tags, not deleted). The index is the snapshot of exactly
  these records, the deleted ones left out, whatever the index held before.
  \<open>getArticleById\<close> with the article's id gives the article, and what it gives for any id
  is the article or a record of another id that was persisted before. \<open>listByTag\<close> is the
  list of these records that carry the tag, by publish date, most recent first: it lists
  the article under each of its tags and under no other tag, and every other entry is a
  record of another id that was persisted before. No entry for the former state of the
  article is left.
\<close>

theorem index_consistent_after_write:
  fixes w :: "(site, blob) world"
  assumes "validPointer article w"
    and "succeeded (createNewOrUpdatePost (siteServices permalink) r article w)"
  shows "\<exists>url a.
           events (createNewOrUpdatePost (siteServices permalink) r article w) =
             events w @
               [CreateNewTextCall (formatNameToId (getTrimmedFormValue r ''format''))
                  (getTrimmedFormValue r ''note''),
                CreateOrUpdateArticleCall (target article w),
                ClearArticlesCacheCall,
                Redirect url 301] \<and>
           a = heap (createNewOrUpdatePost (siteServices permalink) r article w) ! target article w \<and>
           Title a = getTrimmedFormValue r ''title'' \<and>
           last (Versions a) =
             (formatNameToId (getTrimmedFormValue r ''format''), getTrimmedFormValue r ''note'') \<and>
           Tags a = tagsFromString (getTrimmedFormValue r ''tags'') \<and>
           \<not> IsDeleted a \<and>
           records (env (createNewOrUpdatePost (siteServices permalink) r article w)) =
             filter (\<lambda>b. Id b \<noteq> Id a) (records (env w)) @ [a] \<and>
           index (env (createNewOrUpdatePost (siteServices permalink) r article w)) =
             Some (filter (\<lambda>b. \<not> IsDeleted b)
                     (records (env (createNewOrUpdatePost (siteServices permalink) r article w)))) \<and>
           getArticleById (env (createNewOrUpdatePost (siteServices permalink) r article w)) (Id a)
             = Some a \<and>
           (\<forall>i b. getArticleById (env (createNewOrUpdatePost (siteServices permalink) r article w)) i
                    = Some b \<longrightarrow>
                  Id b = i \<and> \<not> IsDeleted b \<and>
                  (b = a \<or> Id b \<noteq> Id a \<and> b \<in> set (records (env w)))) \<and>
           (\<forall>tag. listByTag (env (createNewOrUpdatePost (siteServices permalink) r article w)) tag =
                  rev (sort_key PublishedOn
                         (filter (\<lambda>b. tag \<in> set (Tags b))
                            (filter (\<lambda>b. \<not> IsDeleted b)
                               (filter (\<lambda>b. Id b \<noteq> Id a) (records (env w)) @ [a]))))) \<and>
           (\<forall>tag. a \<in> set (listByTag (env (createNewOrUpdatePost (siteServices permalink) r article w)) tag)
                  \<longleftrightarrow> tag \<in> set (Tags a)) \<and>
           (\<forall>tag b. b \<in> set (listByTag (env (createNewOrUpdatePost (siteServices permalink) r article w)) tag)
                    \<longrightarrow> tag \<in> set (Tags b) \<and> \<not> IsDeleted b \<and>
                         (b = a \<or> Id b \<noteq> Id a \<and> b \<in> set (records (env w))))"
  using assms(1)
proof (cases rule: createNewOrUpdatePost_outcomes [where sv="siteServices permalink" and r=r])
  case (rejected msg)
  then show ?thesis using assms(2) by simp
next
  case (text_failed err e1)
  then show ?thesis using assms(2) by simp
next
  case (article_failed tx e1 err e2)
  then show ?thesis using assms(2) by simp
next
  case (stored tx e1 newId e2)
  let ?sv = "siteServices permalink"
  let ?w = "createNewOrUpdatePost ?sv r article w"
  let ?fmt = "formatNameToId (getTrimmedFormValue r ''format'')"
  let ?body = "getTrimmedFormValue r ''note''"
  define a where "a = (handedOver ?sv r article tx e1 w)\<lparr>Id := newId\<rparr>"
  have q: "put (env w) ?fmt ?body = (Inr tx, e1)"
    using stored(4) by simp
  have p: "persist (envAtStore ?sv r article e1 w) (handedOver ?sv r article tx e1 w) = (Inr newId, e2)"
    using stored(5) by simp
  have tx: "tx = (?fmt, ?body)"
    using q by (rule put_Inr)
  have pl: "target article w < length (heap (afterText ?sv article ?fmt ?body e1 w))"
    by (rule target_afterText [OF assms(1)])
  have h: "heap ?w ! target article w = a"
    using stored(6) pl by (simp add: a_def)
  have ia: "Id a = newId" and nd: "\<not> IsDeleted a"
    by (simp_all add: a_def handedOver_fields)
  have r1: "records e1 = records (env w)"
    using put_view [OF q] by simp
  have r2: "records e2 = filter (\<lambda>b. Id b \<noteq> Id a) (records (env w)) @ [a]"
    using persist_view(3) [OF p refl] r1 ia by (simp add: envAtStore_view a_def)
  have env: "env ?w = invalidate e2"
    using stored(7) by simp
  have rec: "records (env ?w) = filter (\<lambda>b. Id b \<noteq> Id a) (records (env w)) @ [a]"
    using r2 by (simp add: env invalidate_def rebuild_def)
  have ix: "index (env ?w) = Some (filter (\<lambda>b. \<not> IsDeleted b) (records (env ?w)))"
    by (simp add: env invalidate_def rebuild_def)
  have g: "getArticleById (env ?w) (Id a) = Some a"
    unfolding env by (rule index_after_store(1) [OF r2 nd])
  have g2: "Id b = i \<and> \<not> IsDeleted b \<and> (b = a \<or> Id b \<noteq> Id a \<and> b \<in> set (records (env w)))"
    if "getArticleById (env ?w) i = Some b" for i b
  proof -
    from that have "find (\<lambda>a. Id a = i) (filter (\<lambda>b. \<not> IsDeleted b) (records (env ?w))) = Some b"
      by (simp add: getArticleById_def ix)
    from find_in_index [OF this]
    have i: "Id b = i" and m: "b \<in> set (records (env ?w))" and d: "\<not> IsDeleted b"
      by simp_all
    from m have "b = a \<or> Id b \<noteq> Id a \<and> b \<in> set (records (env w))"
      unfolding rec by auto
    with i d show ?thesis by simp
  qed
  have l: "listByTag (env ?w) tag =
                  rev (sort_key PublishedOn
                         (filter (\<lambda>b. tag \<in> set (Tags b))
                            (filter (\<lambda>b. \<not> IsDeleted b)
                               (filter (\<lambda>b. Id b \<noteq> Id a) (records (env w)) @ [a]))))" for tag
    by (simp only: listByTag_def ix rec option.case)
  have l1: "a \<in> set (listByTag (env ?w) tag) \<longleftrightarrow> tag \<in> set (Tags a)" for tag
    unfolding l using nd by auto
  have l2: "tag \<in> set (Tags b) \<and> \<not> IsDeleted b \<and>
            (b = a \<or> Id b \<noteq> Id a \<and> b \<in> set (records (env w)))"
    if "b \<in> set (listByTag (env ?w) tag)" for tag b
  proof -
    from that have "b \<in> set (filter (\<lambda>b. tag \<in> set (Tags b))
                            (filter (\<lambda>b. \<not> IsDeleted b)
                               (filter (\<lambda>b. Id b \<noteq> Id a) (records (env w)) @ [a])))"
      unfolding l by simp
    then have "tag \<in> set (Tags b)" "\<not> IsDeleted b"
      "b \<in> set (filter (\<lambda>b. Id b \<noteq> Id a) (records (env w)) @ [a])"
      using filter_is_subset [of "\<lambda>b. tag \<in> set (Tags b)"] by (simp_all del: set_append filter_append)
    then show ?thesis by auto
  qed
  have f: "Title a = getTrimmedFormValue r ''title''"
    "last (Versions a) = (?fmt, ?body)"
    "Tags a = tagsFromString (getTrimmedFormValue r ''tags'')"
    by (simp_all add: a_def handedOver_fields tx)
  have ev: "events ?w = events w @
               [CreateNewTextCall ?fmt ?body, CreateOrUpdateArticleCall (target article w),
                ClearArticlesCacheCall, Redirect (''/'' @ permalink a) 301]"
    using stored(8) by (simp add: a_def)
  note parts = ev h [symmetric] f nd rec ix g
  have quant:
    "\<forall>i b. getArticleById (env ?w) i = Some b \<longrightarrow>
       Id b = i \<and> \<not> IsDeleted b \<and> (b = a \<or> Id b \<noteq> Id a \<and> b \<in> set (records (env w)))"
    "\<forall>tag. listByTag (env ?w) tag =
                  rev (sort_key PublishedOn
                         (filter (\<lambda>b. tag \<in> set (Tags b))
                            (filter (\<lambda>b. \<not> IsDeleted b)
                               (filter (\<lambda>b. Id b \<noteq> Id a) (records (env w)) @ [a]))))"
    "\<forall>tag. a \<in> set (listByTag (env ?w) tag) \<longleftrightarrow> tag \<in> set (Tags a)"
    "\<forall>tag b. b \<in> set (listByTag (env ?w) tag) \<longrightarrow>
       tag \<in> set (Tags b) \<and> \<not> IsDeleted b \<and>
       (b = a \<or> Id b \<noteq> Id a \<and> b \<in> set (records (env w)))"
    using g2 l l1 l2 by (blast, blast, blast, blast)
  show ?thesis
    by (rule exI, rule exI, intro conjI; (rule parts quant))
qed

theorem index_consistent_after_write_witness:
  "validPointer (Some 0) (world1 []) \<and>
   succeeded (createNewOrUpdatePost (siteServices titleLink)
        (editRequest ''text'' ''New title'' ''a second body'') (Some 0) (world1 [])) \<and>
   events (createNewOrUpdatePost (siteServices titleLink)
        (editRequest ''text'' ''New title'' ''a second body'') (Some 0) (world1 [])) =
     [CreateNewTextCall FormatText ''a second body'', CreateOrUpdateArticleCall 0,
      ClearArticlesCacheCall, Redirect ''/article/New title'' 301] \<and>
   map_option Title (getArticleById (env (createNewOrUpdatePost (siteServices titleLink)
        (editRequest ''text'' ''New title'' ''a second body'') (Some 0) (world1 []))) 1) =
     Some ''New title'' \<and>
   map Title (listByTag (env (world1 [])) ''go'') = [''Old title''] \<and>
   map Title (listByTag (env (createNewOrUpdatePost (siteServices titleLink)
        (editRequest ''text'' ''New title'' ''a second body'') (Some 0) (world1 []))) ''go'') =
     [''New title''] \<and>
   map Title (listByTag (env (createNewOrUpdatePost (siteServices titleLink)
        (editRequest ''text'' ''New title'' ''a second body'') (Some 0) (world1 []))) ''web'') =
     [''New title'']"
proof -
  let ?sv = "siteServices titleLink"
  let ?r = "editRequest ''text'' ''New title'' ''a second body''"
  let ?w = "world1 []"
  have vp: "validPointer (Some 0) ?w"
    by (simp add: validPointer_def world1_def)
  have s: "succeeded (createNewOrUpdatePost ?sv ?r (Some 0) ?w)"
    by (simp add: run_eval)
  have i: "Id (heap (createNewOrUpdatePost ?sv ?r (Some 0) ?w) ! 0) = 1"
    by (simp add: run_eval)
  have l: "map Title (listByTag (env (createNewOrUpdatePost ?sv ?r (Some 0) ?w)) ''go'') =
     [''New title'']"
     "map Title (listByTag (env (createNewOrUpdatePost ?sv ?r (Some 0) ?w)) ''web'') =
     [''New title'']"
    and l0: "map Title (listByTag (env ?w) ''go'') = [''Old title'']"
    by (simp_all add: run_eval listByTag_def)
  have e0: "events ?w = []" by (simp add: world1_def)
  have rq: "formatNameToId (getTrimmedFormValue ?r ''format'') = FormatText"
    "getTrimmedFormValue ?r ''note'' = ''a second body''"
    "getTrimmedFormValue ?r ''title'' = ''New title''"
    by (simp_all add: request_eval formatNameToId_def)
  from index_consistent_after_write [OF vp s]
  obtain a where "a = heap (createNewOrUpdatePost ?sv ?r (Some 0) ?w) ! target (Some 0) ?w"
    and "Title a = getTrimmedFormValue ?r ''title''"
    and "getArticleById (env (createNewOrUpdatePost ?sv ?r (Some 0) ?w)) (Id a) = Some a"
    by blast
  then have "map_option Title (getArticleById (env (createNewOrUpdatePost ?sv ?r (Some 0) ?w)) 1) =
     Some ''New title''"
    using i rq by (simp add: target_def)
  moreover have "events (createNewOrUpdatePost ?sv ?r (Some 0) ?w) =
     [CreateNewTextCall FormatText ''a second body'', CreateOrUpdateArticleCall 0,
      ClearArticlesCacheCall, Redirect ''/article/New title'' 301]"
    by (simp add: run_eval)
  ultimately show ?thesis using vp s l l0 by simp
qed










text \<open>
  The handler assigns to the article through the pointer before it calls the repository.
  When the repository then fails, the article object carries the new title and the new
  version, and the text written before stays in the blob store, referred to by no
  record, while the persisted record and the index, which the readers see, are as
  before.
\<close>

lemma failed_persist_object_edited:
  "Title (heap (world1 [False, True]) ! 0) = ''Old title'' \<and>
   Title (heap (createNewOrUpdatePost (siteServices titleLink)
        (editRequest ''text'' ''New title'' ''a second body'') (Some 0) (world1 [False, True])) ! 0) =
     ''New title'' \<and>
   length (Versions (heap (createNewOrUpdatePost (siteServices titleLink)
        (editRequest ''text'' ''New title'' ''a second body'') (Some 0) (world1 [False, True])) ! 0)) = 2 \<and>
   records (env (createNewOrUpdatePost (siteServices titleLink)
        (editRequest ''text'' ''New title'' ''a second body'') (Some 0) (world1 [False, True]))) =
     [article1] \<and>
   blobs (env (createNewOrUpdatePost (siteServices titleLink)
        (editRequest ''text'' ''New title'' ''a second body'') (Some 0) (world1 [False, True]))) =
     [(FormatMarkdown, ''the first body''), (FormatText, ''a second body'')]"
  by (simp add: run_eval)

end
